theory Spec2Isabelle
  imports Main "HOL-Library.Sublist" "HOL-Library.AList" "HOL-Library.Char_ord" "HOL-Library.List_Lexorder"
begin

section \<open>Paths: \<open>validatePath\<close> of \<open>server.js\<close>\<close>

subsection \<open>Node's \<open>path\<close> module on POSIX\<close>

text \<open>
  \<open>server.js\<close> and \<open>PluginManager.js\<close> call \<open>path.join\<close> and \<open>path.isAbsolute\<close> of the
  Node.js runtime, which the image (\<open>node:18-alpine\<close>) runs in its POSIX variant. They
  are modelled on path segments: \<open>normalizeString\<close> of Node's \<open>path.js\<close> walks the
  characters between separators, and what it does with one such segment is
  \<open>normalize_step\<close>: an empty segment and \<open>.\<close> are dropped; \<open>..\<close> removes the last
  segment kept so far unless there is none or it is \<open>..\<close> itself, in which case \<open>..\<close> is
  kept when the path is relative and dropped when it is absolute; any other segment is
  kept.
\<close>

fun split_on :: "char \<Rightarrow> string \<Rightarrow> string list" where
  "split_on sep [] = [[]]"
| "split_on sep (c # cs) =
     (if c = sep then [] # split_on sep cs
      else (case split_on sep cs of [] \<Rightarrow> [[c]] | w # ws \<Rightarrow> (c # w) # ws))"

fun join_with :: "char \<Rightarrow> string list \<Rightarrow> string" where
  "join_with sep [] = []"
| "join_with sep [s] = s"
| "join_with sep (s # t # ts) = s @ sep # join_with sep (t # ts)"

definition normalize_step :: "bool \<Rightarrow> string list \<Rightarrow> string \<Rightarrow> string list" where
  "normalize_step allowAboveRoot res seg =
     (if seg = [] \<or> seg = ''.'' then res
      else if seg = ''..'' then
        (if res \<noteq> [] \<and> last res \<noteq> ''..'' then butlast res
         else if allowAboveRoot then res @ [''..''] else res)
      else res @ [seg])"

definition normalizeString :: "string \<Rightarrow> bool \<Rightarrow> string" where
  "normalizeString path allowAboveRoot =
     join_with CHR ''/'' (foldl (normalize_step allowAboveRoot) [] (split_on CHR ''/'' path))"

definition posix_isAbsolute :: "string \<Rightarrow> bool" where
  "posix_isAbsolute path = (path \<noteq> [] \<and> hd path = CHR ''/'')"

definition posix_normalize :: "string \<Rightarrow> string" where
  "posix_normalize path =
     (if path = [] then ''.''
      else
        (let isAbsolute = (hd path = CHR ''/'');
             trailingSeparator = (last path = CHR ''/'');
             path1 = normalizeString path (\<not> isAbsolute)
         in if path1 = [] then (if isAbsolute then ''/'' else if trailingSeparator then ''./'' else ''.'')
            else (let path2 = (if trailingSeparator then path1 @ ''/'' else path1)
                  in if isAbsolute then CHR ''/'' # path2 else path2)))"

text \<open>\<open>path.join(...args)\<close>: the non-empty arguments, joined by \<open>/\<close> and normalized.\<close>

definition posix_join :: "string list \<Rightarrow> string" where
  "posix_join args =
     (let joined = filter (\<lambda>arg. arg \<noteq> []) args
      in if joined = [] then ''.'' else posix_normalize (join_with CHR ''/'' joined))"

subsection \<open>\<open>validatePath\<close>\<close>

text \<open>
  The two errors \<open>validatePath\<close> throws: \<open>Error('Invalid path')\<close> and
  \<open>Error('Path outside storage directory')\<close>.
\<close>

datatype path_error = InvalidPath | PathOutsideStorage

text \<open>
  \<open>userPath.replace(/^\/+|\/+$/g, '')\<close> removes the run of slashes at the start and the
  run of slashes at the end.
\<close>

definition strip_slashes :: "string \<Rightarrow> string" where
  "strip_slashes s =
     rev (dropWhile (\<lambda>c. c = CHR ''/'') (rev (dropWhile (\<lambda>c. c = CHR ''/'') s)))"

text \<open>\<open>s.includes(sub)\<close>: \<open>sub\<close> occurs in \<open>s\<close> as a substring.\<close>

fun str_includes :: "string \<Rightarrow> string \<Rightarrow> bool" where
  "str_includes [] sub = (sub = [])"
| "str_includes (c # cs) sub = (prefix sub (c # cs) \<or> str_includes cs sub)"

text \<open>
  \<open>validatePath(userPath)\<close>, with the module constant \<open>UPLOAD_DIR\<close> as a parameter. The
  argument is a string (the callers pass a query or route parameter, or \<open>'/'\<close> in its
  place when it is missing), for which \<open>!userPath\<close> holds exactly of the empty string.
  \<open>Inl\<close> is the error thrown.
\<close>

definition validatePath :: "string \<Rightarrow> string \<Rightarrow> path_error + string" where
  "validatePath UPLOAD_DIR userPath =
     (if userPath = [] \<or> userPath = ''/'' then Inr UPLOAD_DIR
      else
        (let cleaned = strip_slashes userPath
         in if str_includes cleaned ''..'' \<or> posix_isAbsolute cleaned then Inl InvalidPath
            else
              (let fullPath = posix_join [UPLOAD_DIR, cleaned]
               in if \<not> prefix UPLOAD_DIR fullPath then Inl PathOutsideStorage
                  else Inr fullPath)))"

text \<open>
  The segment sequence of a path: what stands between its separators, the empty pieces
  that a leading, trailing or doubled separator produces left out.
\<close>

definition segments :: "string \<Rightarrow> string list" where
  "segments path = filter (\<lambda>seg. seg \<noteq> []) (split_on CHR ''/'' path)"

section \<open>The plugin manager of \<open>lib/PluginManager.js\<close>\<close>

subsection \<open>Values, exceptions and the console\<close>

text \<open>
  JavaScript can throw any value. Both \<open>catch\<close> blocks of the class read
  \<open>error.message\<close> of what they caught, which is itself a \<open>TypeError\<close> when the caught
  value is \<open>null\<close> or \<open>undefined\<close>; so a thrown value is either nullish or a value
  whose \<open>message\<close> can be read (the text \<open>console.error\<close> prints for it).
\<close>

datatype thrown = ThrowNullish | ThrowValue string

text \<open>
  The \<open>TypeError\<close> that reading a property of \<open>null\<close> or \<open>undefined\<close> throws; the
  string stands for the message Node gives it.
\<close>

definition TypeError_message_of_nullish :: thrown where
  "TypeError_message_of_nullish = ThrowValue ''Cannot read properties of null or undefined''"

text \<open>
  The lines the class writes to the console, one constructor per call site, with the
  values interpolated into the message.
\<close>

datatype log_entry =
    NoPluginsDirectory
  | LoadingPluginsFrom string
  | LoadedCount nat
  | ErrorLoadingPlugins string
  | NoIndexJs string
  | PluginDisabled string
  | PluginOk string string
  | FailedToLoadPlugin string string
  | MissingInit string
  | ErrorInHook string string

text \<open>A parsed \<open>config.json\<close>: the value \<open>JSON.parse\<close> returns.\<close>

datatype json =
    JNull | JBool bool | JNum int | JStr string | JArr "json list" | JObj "(string \<times> json) list"

text \<open>
  Reading a property \<open>k\<close> of a parsed JSON value: a \<open>TypeError\<close> on \<open>null\<close>, the member
  on an object, \<open>undefined\<close> (\<open>None\<close>) on anything else.
\<close>

fun get_property :: "json \<Rightarrow> string \<Rightarrow> thrown + json option" where
  "get_property JNull k = Inl TypeError_message_of_nullish"
| "get_property (JObj kvs) k = Inr (map_of kvs k)"
| "get_property j k = Inr None"

subsection \<open>The manager's state\<close>

text \<open>
  A hook callback is an arbitrary JavaScript function of the current payload. Awaiting
  it has one of three outcomes, which are all that \<open>executeHook\<close> distinguishes: the call
  throws (or its promise rejects), it yields \<open>undefined\<close>, or it yields some other value.
  The payload type \<open>'p\<close> is left open; a payload is a value here, so what a callback
  does to a payload object in place is not part of the model.
\<close>

datatype 'p hook_outcome = Throws thrown | ReturnsUndefined | Returns 'p

type_synonym 'p callback = "'p \<Rightarrow> 'p hook_outcome"

text \<open>A route contributed through \<open>addRoute\<close>: the object \<open>{ method, path, handler }\<close>.\<close>

record 'h route =
  r_method :: string
  r_path :: string
  r_handler :: 'h

text \<open>
  The value stored per plugin in the \<open>plugins\<close> map. The \<open>module\<close> field of the source
  object is only stored, never read, and is left out.
\<close>

record plugin_entry =
  p_name :: string
  p_version :: string
  p_description :: string

text \<open>
  The fields of a \<open>PluginManager\<close> instance. \<open>plugins\<close> is a JavaScript \<open>Map\<close>, whose
  iteration order is insertion order and whose \<open>set\<close> on a present key keeps the key's
  position: an association list under \<open>AList.update\<close>. \<open>hooks\<close> is a \<open>Map\<close> that is only
  looked up by key. \<open>console\<close> collects what is written with \<open>console.log\<close>,
  \<open>console.warn\<close> and \<open>console.error\<close>, oldest first.
\<close>

record ('p, 'h) plugin_manager =
  pluginsDir :: string
  plugins :: "(string \<times> plugin_entry) list"
  hooks :: "string \<rightharpoonup> 'p callback list"
  routes :: "'h route list"
  console :: "log_entry list"

definition new_PluginManager :: "string \<Rightarrow> ('p, 'h) plugin_manager" where
  "new_PluginManager dir =
     \<lparr>pluginsDir = dir, plugins = [], hooks = Map.empty, routes = [], console = []\<rparr>"

definition log_line :: "log_entry \<Rightarrow> ('p, 'h) plugin_manager \<Rightarrow> ('p, 'h) plugin_manager" where
  "log_line e pm = pm\<lparr>console := console pm @ [e]\<rparr>"

subsection \<open>Hooks and routes\<close>

text \<open>
  \<open>registerHook(hookName, callback)\<close>: creates the array on first use, then pushes.
\<close>

definition registerHook ::
  "string \<Rightarrow> 'p callback \<Rightarrow> ('p, 'h) plugin_manager \<Rightarrow> ('p, 'h) plugin_manager" where
  "registerHook hookName cb pm =
     (let pm1 = (if hooks pm hookName = None then pm\<lparr>hooks := (hooks pm)(hookName \<mapsto> [])\<rparr> else pm)
      in pm1\<lparr>hooks := (hooks pm1)(hookName \<mapsto> the (hooks pm1 hookName) @ [cb])\<rparr>)"

text \<open>\<open>addRoute(method, path, handler)\<close>.\<close>

definition addRoute ::
  "string \<Rightarrow> string \<Rightarrow> 'h \<Rightarrow> ('p, 'h) plugin_manager \<Rightarrow> ('p, 'h) plugin_manager" where
  "addRoute m p h pm = pm\<lparr>routes := routes pm @ [\<lparr>r_method = m, r_path = p, r_handler = h\<rparr>]\<rparr>"

text \<open>
  The \<open>for (const callback of callbacks)\<close> loop of \<open>executeHook\<close>. Its state is the
  variable \<open>result\<close> and the lines logged so far. In one iteration the \<open>try\<close> block awaits
  the callback on \<open>result\<close> and replaces \<open>result\<close> unless the value is \<open>undefined\<close>; the
  \<open>catch\<close> block reads \<open>error.message\<close>, writes one line and falls through to the next
  iteration. Reading \<open>error.message\<close> of a nullish caught value throws out of the
  \<open>catch\<close> block, hence out of the loop and of \<open>executeHook\<close>: the \<open>Inl\<close> result.
\<close>

fun hook_loop ::
  "string \<Rightarrow> 'p callback list \<Rightarrow> 'p \<Rightarrow> log_entry list \<Rightarrow> (thrown + 'p) \<times> log_entry list" where
  "hook_loop hookName [] result out = (Inr result, out)"
| "hook_loop hookName (cb # cbs) result out =
     (case cb result of
        Returns hookResult \<Rightarrow> hook_loop hookName cbs hookResult out
      | ReturnsUndefined \<Rightarrow> hook_loop hookName cbs result out
      | Throws ThrowNullish \<Rightarrow> (Inl TypeError_message_of_nullish, out)
      | Throws (ThrowValue msg) \<Rightarrow> hook_loop hookName cbs result (out @ [ErrorInHook hookName msg]))"

text \<open>
  \<open>executeHook(hookName, data)\<close>, with \<open>this.hooks.get(hookName) || []\<close> as
  \<open>registered_callbacks\<close>. The first component is what the returned promise
  settles to: \<open>Inl\<close> a rejection, \<open>Inr\<close> the fulfilled value; the second is the manager,
  whose console has the lines logged on the way.
\<close>

definition registered_callbacks :: "('p, 'h) plugin_manager \<Rightarrow> string \<Rightarrow> 'p callback list" where
  "registered_callbacks pm hookName = (case hooks pm hookName of None \<Rightarrow> [] | Some cbs \<Rightarrow> cbs)"

definition executeHook ::
  "string \<Rightarrow> 'p \<Rightarrow> ('p, 'h) plugin_manager \<Rightarrow> (thrown + 'p) \<times> ('p, 'h) plugin_manager" where
  "executeHook hookName data pm =
     (let callbacks = registered_callbacks pm hookName
      in if length callbacks = 0 then (Inr data, pm)
         else (let r = hook_loop hookName callbacks data []
               in (fst r, pm\<lparr>console := console pm @ snd r\<rparr>)))"

subsection \<open>Loading plugins\<close>

text \<open>
  What \<open>plugin.init(context)\<close> does with the context it is given, as far as the manager
  can observe: the calls it makes to \<open>context.registerHook\<close> and \<open>context.addRoute\<close>, in
  order, and whether it then returns or throws. It may depend on \<open>context.config\<close> and
  \<open>context.pluginDir\<close>.
\<close>

datatype ('p, 'h) init_call = RegisterHook string "'p callback" | AddRoute string string 'h

type_synonym ('p, 'h) init_fn = "json \<Rightarrow> string \<Rightarrow> ('p, 'h) init_call list \<times> thrown option"

text \<open>
  The exports object of a plugin's \<open>index.js\<close>: what \<open>plugin.name\<close>, \<open>plugin.version\<close>
  and \<open>plugin.description\<close> evaluate to (\<open>None\<close> for \<open>undefined\<close>), and \<open>plugin.init\<close> when
  it is a function.
\<close>

record ('p, 'h) plugin_module =
  m_name :: "string option"
  m_version :: "string option"
  m_description :: "string option"
  m_init :: "('p, 'h) init_fn option"

text \<open>
  \<open>require(indexPath)\<close> throws, or yields the module's exports, which may be \<open>null\<close> or
  \<open>undefined\<close>.
\<close>

datatype ('p, 'h) required = RequireThrows thrown | ExportsNullish | Exports "('p, 'h) plugin_module"

text \<open>
  \<open>config.json\<close> of a plugin directory: absent, or present with reading and parsing
  either throwing an \<open>Error\<close> or yielding a value.
\<close>

datatype config_file = NoConfigFile | ConfigFileThrows string | ConfigFile json

record ('p, 'h) plugin_dir =
  has_index :: bool
  config_json :: config_file
  index_js :: "('p, 'h) required"

text \<open>
  The plugins directory as the manager sees it: whether it exists, what \<open>fs.mkdir\<close> does
  when it has to be created (\<open>Some\<close> an error message when it throws), what
  \<open>fs.readdir(..., { withFileTypes: true })\<close> yields (an error message, or the entries
  in the order \<open>fs.readdir\<close> returns them, each a name and its \<open>isDirectory()\<close>), and the
  content of each entry.
\<close>

record ('p, 'h) plugins_fs =
  dir_exists :: bool
  mkdir_throws :: "string option"
  readdir_entries :: "string + (string \<times> bool) list"
  plugin_at :: "string \<Rightarrow> ('p, 'h) plugin_dir"

text \<open>\<open>a || b\<close> on a value that is \<open>undefined\<close> or a string: the empty string is falsy.\<close>

definition js_or :: "string option \<Rightarrow> string \<Rightarrow> string" where
  "js_or a b = (case a of None \<Rightarrow> b | Some s \<Rightarrow> if s = [] then b else s)"

text \<open>\<open>validatePlugin(plugin, pluginName)\<close>.\<close>

definition validatePlugin ::
  "('p, 'h) plugin_module \<Rightarrow> string \<Rightarrow> ('p, 'h) plugin_manager \<Rightarrow> bool \<times> ('p, 'h) plugin_manager" where
  "validatePlugin plugin pluginName pm =
     (if m_init plugin = None then (False, log_line (MissingInit pluginName) pm) else (True, pm))"

fun run_init_call :: "('p, 'h) plugin_manager \<Rightarrow> ('p, 'h) init_call \<Rightarrow> ('p, 'h) plugin_manager" where
  "run_init_call pm (RegisterHook hookName cb) = registerHook hookName cb pm"
| "run_init_call pm (AddRoute m p h) = addRoute m p h pm"

text \<open>
  The \<open>try\<close> block of \<open>loadPlugin(pluginName)\<close>. \<open>Inl\<close> is a value thrown inside the
  block, paired with the manager as the block left it.
\<close>

definition load_config :: "config_file \<Rightarrow> thrown + json" where
  "load_config cf =
     (case cf of
        NoConfigFile \<Rightarrow> Inr (JObj [])
      | ConfigFileThrows msg \<Rightarrow> Inl (ThrowValue msg)
      | ConfigFile config \<Rightarrow> Inr config)"

definition initialize_plugin ::
  "('p, 'h) plugin_module \<Rightarrow> ('p, 'h) init_fn \<Rightarrow> json \<Rightarrow> string \<Rightarrow> string \<Rightarrow>
   ('p, 'h) plugin_manager \<Rightarrow> (thrown + unit) \<times> ('p, 'h) plugin_manager" where
  "initialize_plugin plugin init config pluginPath pluginName pm =
     (let ran = init config pluginPath;
          pm1 = foldl run_init_call pm (fst ran)
      in case snd ran of
           Some e \<Rightarrow> (Inl e, pm1)
         | None \<Rightarrow>
             (Inr (),
              log_line (PluginOk (js_or (m_name plugin) pluginName) (js_or (m_version plugin) ''1.0.0''))
                (pm1\<lparr>plugins :=
                   AList.update pluginName
                     \<lparr>p_name = js_or (m_name plugin) pluginName,
                      p_version = js_or (m_version plugin) ''1.0.0'',
                      p_description = js_or (m_description plugin) []\<rparr>
                     (plugins pm1)\<rparr>)))"

definition loadPlugin_try ::
  "('p, 'h) plugins_fs \<Rightarrow> string \<Rightarrow> ('p, 'h) plugin_manager \<Rightarrow>
   (thrown + unit) \<times> ('p, 'h) plugin_manager" where
  "loadPlugin_try env pluginName pm =
     (let pluginPath = posix_join [pluginsDir pm, pluginName];
          d = plugin_at env pluginName
      in if \<not> has_index d then (Inr (), log_line (NoIndexJs pluginName) pm)
         else
           (case load_config (config_json d) of
              Inl e \<Rightarrow> (Inl e, pm)
            | Inr config \<Rightarrow>
                (case get_property config ''enabled'' of
                   Inl e \<Rightarrow> (Inl e, pm)
                 | Inr enabled \<Rightarrow>
                     if enabled = Some (JBool False)
                     then (Inr (), log_line (PluginDisabled pluginName) pm)
                     else
                       (case index_js d of
                          RequireThrows e \<Rightarrow> (Inl e, pm)
                        | ExportsNullish \<Rightarrow> (Inl TypeError_message_of_nullish, pm)
                        | Exports plugin \<Rightarrow>
                            (let v = validatePlugin plugin pluginName pm
                             in if \<not> fst v then (Inr (), snd v)
                                else
                                  (case m_init plugin of
                                     None \<Rightarrow> (Inl TypeError_message_of_nullish, snd v)
                                   | Some init \<Rightarrow>
                                       initialize_plugin plugin init config pluginPath
                                         pluginName (snd v)))))))"

text \<open>
  \<open>loadPlugin(pluginName)\<close>: the \<open>try\<close> block under its \<open>catch\<close>, which reads
  \<open>error.message\<close> and logs it. When the caught value is nullish that read throws, and
  the promise of \<open>loadPlugin\<close> rejects.
\<close>

definition loadPlugin ::
  "('p, 'h) plugins_fs \<Rightarrow> string \<Rightarrow> ('p, 'h) plugin_manager \<Rightarrow>
   (thrown + unit) \<times> ('p, 'h) plugin_manager" where
  "loadPlugin env pluginName pm =
     (case loadPlugin_try env pluginName pm of
        (Inr u, pm1) \<Rightarrow> (Inr u, pm1)
      | (Inl ThrowNullish, pm1) \<Rightarrow> (Inl TypeError_message_of_nullish, pm1)
      | (Inl (ThrowValue msg), pm1) \<Rightarrow> (Inr (), log_line (FailedToLoadPlugin pluginName msg) pm1))"

text \<open>\<open>str.startsWith(c)\<close> for a one-character \<open>c\<close>.\<close>

definition startsWith_char :: "string \<Rightarrow> char \<Rightarrow> bool" where
  "startsWith_char s c = (s \<noteq> [] \<and> hd s = c)"

text \<open>
  The order in which \<open>fs.readdir\<close> returns the entries of a directory. On POSIX Node
  reads a directory through \<open>scandir\<close> of libuv, which sorts the names with \<open>strcmp\<close>:
  in whatever order the kernel enumerates the directory, the entries arrive sorted by
  name, byte by byte.
\<close>

definition readdir_sorted :: "(string \<times> bool) list \<Rightarrow> (string \<times> bool) list" where
  "readdir_sorted dirents = sort_key fst dirents"

text \<open>
  The filter of \<open>loadPlugins\<close> over the directory entries, and the names it passes to
  \<open>loadPlugin\<close>, in the order of the entries.
\<close>

definition pluginDirs :: "(string \<times> bool) list \<Rightarrow> string list" where
  "pluginDirs entries =
     map fst (filter (\<lambda>entry. snd entry \<and> \<not> startsWith_char (fst entry) CHR ''_''
                                \<and> \<not> startsWith_char (fst entry) CHR ''.'') entries)"

text \<open>
  The loop \<open>for (const dir of pluginDirs) await this.loadPlugin(dir.name)\<close>: a rejected
  \<open>loadPlugin\<close> leaves the loop.
\<close>

fun load_each ::
  "('p, 'h) plugins_fs \<Rightarrow> string list \<Rightarrow> ('p, 'h) plugin_manager \<Rightarrow>
   (thrown + unit) \<times> ('p, 'h) plugin_manager" where
  "load_each env [] pm = (Inr (), pm)"
| "load_each env (name # names) pm =
     (case loadPlugin env name pm of
        (Inl e, pm1) \<Rightarrow> (Inl e, pm1)
      | (Inr u, pm1) \<Rightarrow> load_each env names pm1)"

definition loadPlugins_try ::
  "('p, 'h) plugins_fs \<Rightarrow> ('p, 'h) plugin_manager \<Rightarrow> (thrown + unit) \<times> ('p, 'h) plugin_manager" where
  "loadPlugins_try env pm =
     (if \<not> dir_exists env then
        (case mkdir_throws env of
           Some msg \<Rightarrow> (Inl (ThrowValue msg), log_line NoPluginsDirectory pm)
         | None \<Rightarrow> (Inr (), log_line NoPluginsDirectory pm))
      else
        (case readdir_entries env of
           Inl msg \<Rightarrow> (Inl (ThrowValue msg), pm)
         | Inr entries \<Rightarrow>
             (case load_each env (pluginDirs entries) (log_line (LoadingPluginsFrom (pluginsDir pm)) pm) of
                (Inl e, pm1) \<Rightarrow> (Inl e, pm1)
              | (Inr u, pm1) \<Rightarrow> (Inr (), log_line (LoadedCount (length (plugins pm1))) pm1))))"

text \<open>\<open>loadPlugins()\<close>: the \<open>try\<close> block under its \<open>catch\<close>, which logs \<open>error.message\<close>.\<close>

definition loadPlugins ::
  "('p, 'h) plugins_fs \<Rightarrow> ('p, 'h) plugin_manager \<Rightarrow> (thrown + unit) \<times> ('p, 'h) plugin_manager" where
  "loadPlugins env pm =
     (case loadPlugins_try env pm of
        (Inr u, pm1) \<Rightarrow> (Inr u, pm1)
      | (Inl ThrowNullish, pm1) \<Rightarrow> (Inl TypeError_message_of_nullish, pm1)
      | (Inl (ThrowValue msg), pm1) \<Rightarrow> (Inr (), log_line (ErrorLoadingPlugins msg) pm1))"

text \<open>\<open>getPluginInfo()\<close> and \<open>getRoutes()\<close>.\<close>

definition getPluginInfo :: "('p, 'h) plugin_manager \<Rightarrow> plugin_entry list" where
  "getPluginInfo pm =
     map (\<lambda>p. \<lparr>p_name = p_name p, p_version = p_version p, p_description = p_description p\<rparr>)
       (map snd (plugins pm))"

definition getRoutes :: "('p, 'h) plugin_manager \<Rightarrow> 'h route list" where
  "getRoutes pm = routes pm"

section \<open>Folder metadata and the listing of \<open>server.js\<close>\<close>

text \<open>
  The file system as \<open>getFolderMetadata\<close> reads it: \<open>fs.readdir(path)\<close> and
  \<open>fs.stat(path)\<close>, each throwing an error (\<open>Inl\<close>, with its code) or yielding the
  names, respectively the fields of \<open>Stats\<close> the code uses. \<open>st_size\<close> is the number
  \<open>stats.size\<close>: a byte count that the operating system holds in 64 bits, given to
  JavaScript as a double.
\<close>

datatype fs_error = ENOENT | EACCES | ENOTDIR

record stats =
  isDirectory :: bool
  st_size :: nat

record filesystem =
  readdir :: "string \<Rightarrow> fs_error + string list"
  stat :: "string \<Rightarrow> fs_error + stats"

text \<open>
  \<open>totalSize += size\<close> adds two doubles that hold non-negative integers: the result is
  the double nearest to the exact sum, the one with the even significand when two are
  equally near. Below \<open>2^53\<close> every integer is a double; from there on a number of
  \<open>k\<close> binary digits lies between doubles that are \<open>2^(k - 53)\<close> apart. (The overflow
  to \<open>Infinity\<close> near \<open>2^1024\<close> is out of reach of sizes below \<open>2^64\<close> in arrays of
  fewer than \<open>2^32\<close> elements, the longest JavaScript has.)
\<close>

fun bit_length :: "nat \<Rightarrow> nat" where
  "bit_length n = (if n = 0 then 0 else Suc (bit_length (n div 2)))"

declare bit_length.simps [simp del]

definition double_of_nat :: "nat \<Rightarrow> nat" where
  "double_of_nat n =
     (if n < 2 ^ 53 then n
      else
        (let ulp = 2 ^ (bit_length n - 53);
             q = n div ulp;
             r = n mod ulp
         in if 2 * r < ulp then q * ulp
            else if ulp < 2 * r then (q + 1) * ulp
            else if even q then q * ulp else (q + 1) * ulp))"

definition js_add :: "nat \<Rightarrow> nat \<Rightarrow> nat" where
  "js_add a b = double_of_nat (a + b)"

text \<open>
  The inner loop \<open>for (const subItem of subItems)\<close> of \<open>getFolderMetadata\<close>, adding
  \<open>subStats.size\<close> to \<open>totalSize\<close>; a failing \<open>fs.stat\<close> is not caught.
\<close>

fun sub_loop :: "filesystem \<Rightarrow> string \<Rightarrow> string list \<Rightarrow> nat \<Rightarrow> fs_error + nat" where
  "sub_loop fs itemPath [] totalSize = Inr totalSize"
| "sub_loop fs itemPath (subItem # subItems) totalSize =
     (case stat fs (posix_join [itemPath, subItem]) of
        Inl e \<Rightarrow> Inl e
      | Inr subStats \<Rightarrow> sub_loop fs itemPath subItems (js_add totalSize (st_size subStats)))"

text \<open>
  The outer loop \<open>for (const item of items)\<close>, on the pair of \<open>itemCount\<close> and
  \<open>totalSize\<close>. Nothing in it is caught either. \<open>itemCount++\<close> counts the elements of
  a JavaScript array, of which there are fewer than \<open>2^32\<close>, so it is exact.
\<close>

fun item_loop ::
  "filesystem \<Rightarrow> string \<Rightarrow> string list \<Rightarrow> nat \<times> nat \<Rightarrow> fs_error + nat \<times> nat" where
  "item_loop fs folderPath [] acc = Inr acc"
| "item_loop fs folderPath (item # items) acc =
     (let itemPath = posix_join [folderPath, item]
      in case stat fs itemPath of
           Inl e \<Rightarrow> Inl e
         | Inr stats \<Rightarrow>
             (let itemCount = fst acc + 1
              in if isDirectory stats then
                   (case readdir fs itemPath of
                      Inl e \<Rightarrow> Inl e
                    | Inr subItems \<Rightarrow>
                        (case sub_loop fs itemPath subItems (snd acc) of
                           Inl e \<Rightarrow> Inl e
                         | Inr totalSize \<Rightarrow> item_loop fs folderPath items (itemCount, totalSize)))
                 else item_loop fs folderPath items (itemCount, js_add (snd acc) (st_size stats))))"

text \<open>The object \<open>{ itemCount, totalSize }\<close> that \<open>getFolderMetadata\<close> returns.\<close>

record folder_metadata =
  itemCount :: nat
  totalSize :: nat

text \<open>\<open>getFolderMetadata(folderPath)\<close>; \<open>Inl\<close> is the rejection of its promise.\<close>

definition getFolderMetadata :: "filesystem \<Rightarrow> string \<Rightarrow> fs_error + folder_metadata" where
  "getFolderMetadata fs folderPath =
     (case readdir fs folderPath of
        Inl e \<Rightarrow> Inl e
      | Inr items \<Rightarrow>
          (case item_loop fs folderPath items (0, 0) of
             Inl e \<Rightarrow> Inl e
           | Inr acc \<Rightarrow> Inr \<lparr>itemCount = fst acc, totalSize = snd acc\<rparr>))"

text \<open>
  One entry of the listing of \<open>GET /api/files\<close>: the object \<open>baseInfo\<close> that the callback
  given to \<open>items.map\<close> returns for \<open>itemName\<close>, without its \<open>path\<close> and \<open>modified\<close>
  fields. \<open>e_itemCount\<close> is \<open>None\<close> while the property is not set. The \<open>fs.stat\<close> of the
  item is outside the \<open>try\<close>; only \<open>getFolderMetadata\<close> is inside, and its \<open>catch\<close> sets
  \<open>itemCount\<close> to \<open>0\<close> and leaves \<open>size\<close> as \<open>stats.size\<close>.
\<close>

record file_entry =
  e_name :: string
  e_size :: nat
  e_isDirectory :: bool
  e_itemCount :: "nat option"

definition item_details :: "filesystem \<Rightarrow> string \<Rightarrow> string \<Rightarrow> fs_error + file_entry" where
  "item_details fs fullPath itemName =
     (let itemPath = posix_join [fullPath, itemName]
      in case stat fs itemPath of
           Inl e \<Rightarrow> Inl e
         | Inr stats \<Rightarrow>
             (let baseInfo = \<lparr>e_name = itemName, e_size = st_size stats,
                              e_isDirectory = isDirectory stats, e_itemCount = None\<rparr>
              in if isDirectory stats then
                   (case getFolderMetadata fs itemPath of
                      Inr metadata \<Rightarrow>
                        Inr (baseInfo\<lparr>e_itemCount := Some (itemCount metadata),
                                       e_size := totalSize metadata\<rparr>)
                    | Inl error \<Rightarrow> Inr (baseInfo\<lparr>e_itemCount := Some 0\<rparr>))
                 else Inr baseInfo))"

text \<open>
  \<open>await Promise.all(items.map(...))\<close>: the entries in the order of \<open>items\<close>, or the
  rejection of an entry when one rejects (the first in the order of \<open>items\<close> stands
  for whichever settles first).
\<close>

fun all_item_details :: "filesystem \<Rightarrow> string \<Rightarrow> string list \<Rightarrow> fs_error + file_entry list" where
  "all_item_details fs fullPath [] = Inr []"
| "all_item_details fs fullPath (itemName # itemNames) =
     (case item_details fs fullPath itemName of
        Inl e \<Rightarrow> Inl e
      | Inr info \<Rightarrow>
          (case all_item_details fs fullPath itemNames of
             Inl e \<Rightarrow> Inl e
           | Inr infos \<Rightarrow> Inr (info # infos)))"

section \<open>Definitions used to state the properties\<close>

text \<open>
  Following the specification's words for one step of the hook chain: a callback is fed
  the current payload and gives "either an updated payload or nothing (meaning
  unchanged)"; a callback that fails leaves the payload "unchanged by the failed step".
\<close>

definition payload_after :: "'p \<Rightarrow> 'p callback \<Rightarrow> 'p" where
  "payload_after payload cb =
     (case cb payload of Returns v \<Rightarrow> v | ReturnsUndefined \<Rightarrow> payload | Throws e \<Rightarrow> payload)"

text \<open>
  The segments that \<open>normalize_step\<close> keeps when no segment is \<open>..\<close>: the non-empty
  ones other than \<open>.\<close>.
\<close>

definition kept :: "string \<Rightarrow> bool" where
  "kept seg \<longleftrightarrow> seg \<noteq> [] \<and> seg \<noteq> ''.''"

text \<open>
  A storage root in the form the specification gives it, "a single absolute filesystem
  path", written in normal form without a trailing separator, as \<open>/data\<close> is: a slash
  followed by its segments joined by slashes, none of them \<open>.\<close> or \<open>..\<close>.
\<close>

definition canonical_root :: "string \<Rightarrow> bool" where
  "canonical_root root \<longleftrightarrow>
     root = CHR ''/'' # join_with CHR ''/'' (segments root)
     \<and> (\<forall>seg\<in>set (segments root). seg \<noteq> ''.'' \<and> seg \<noteq> ''..'')"

text \<open>
  A plugin directory that \<open>loadPlugin\<close> takes to its end: \<open>index.js\<close> exists, the
  configuration (if any) is read and parsed and its \<open>enabled\<close> is not \<open>false\<close>, the module
  loads and exports a function \<open>init\<close>, and \<open>init\<close> returns. And one on which the \<open>try\<close>
  block of \<open>loadPlugin\<close> throws \<open>null\<close> or \<open>undefined\<close>, from \<open>require\<close> or from \<open>init\<close>.
\<close>

definition plugin_loads :: "('p, 'h) plugin_dir \<Rightarrow> string \<Rightarrow> bool" where
  "plugin_loads d pluginPath =
     (has_index d \<and>
      (case load_config (config_json d) of
         Inl e \<Rightarrow> False
       | Inr config \<Rightarrow>
           (case get_property config ''enabled'' of
              Inl e \<Rightarrow> False
            | Inr enabled \<Rightarrow>
                enabled \<noteq> Some (JBool False) \<and>
                (case index_js d of
                   Exports plugin \<Rightarrow>
                     (case m_init plugin of
                        None \<Rightarrow> False
                      | Some init \<Rightarrow> snd (init config pluginPath) = None)
                 | RequireThrows e \<Rightarrow> False
                 | ExportsNullish \<Rightarrow> False))))"

definition throws_nullish :: "('p, 'h) plugin_dir \<Rightarrow> string \<Rightarrow> bool" where
  "throws_nullish d pluginPath =
     (has_index d \<and>
      (case load_config (config_json d) of
         Inl e \<Rightarrow> False
       | Inr config \<Rightarrow>
           (case get_property config ''enabled'' of
              Inl e \<Rightarrow> False
            | Inr enabled \<Rightarrow>
                enabled \<noteq> Some (JBool False) \<and>
                (case index_js d of
                   Exports plugin \<Rightarrow>
                     (case m_init plugin of
                        None \<Rightarrow> False
                      | Some init \<Rightarrow> snd (init config pluginPath) = Some ThrowNullish)
                 | RequireThrows e \<Rightarrow> e = ThrowNullish
                 | ExportsNullish \<Rightarrow> False))))"

section \<open>Example inputs\<close>

text \<open>
  A plugins directory with one plugin, \<open>audit-log\<close>, whose \<open>config.json\<close> is
  \<open>{"enabled": false}\<close> and whose \<open>init\<close> would register a hook and a route.
\<close>

definition disabled_plugin_fs :: "(nat, unit) plugins_fs" where
  "disabled_plugin_fs =
     \<lparr>dir_exists = True, mkdir_throws = None,
      readdir_entries = Inr [(''audit-log'', True)],
      plugin_at = (\<lambda>name.
        \<lparr>has_index = True,
         config_json = ConfigFile (JObj [(''enabled'', JBool False)]),
         index_js = Exports
           \<lparr>m_name = Some ''audit-log'', m_version = None, m_description = None,
            m_init = Some (\<lambda>config dir.
              ([RegisterHook ''afterUpload'' (\<lambda>x. ReturnsUndefined), AddRoute ''GET'' ''/api/audit'' ()],
               None))\<rparr>\<rparr>)\<rparr>"

text \<open>
  A plugins directory with one plugin, \<open>thumbnails\<close>, without \<open>config.json\<close>, whose
  module exports only \<open>init\<close>.
\<close>

definition bare_plugin_fs :: "(nat, unit) plugins_fs" where
  "bare_plugin_fs =
     \<lparr>dir_exists = True, mkdir_throws = None,
      readdir_entries = Inr [(''thumbnails'', True)],
      plugin_at = (\<lambda>name.
        \<lparr>has_index = True,
         config_json = NoConfigFile,
         index_js = Exports
           \<lparr>m_name = None, m_version = None, m_description = None,
            m_init = Some (\<lambda>config dir. ([RegisterHook ''afterUpload'' (\<lambda>x. ReturnsUndefined)], None))\<rparr>\<rparr>)\<rparr>"

text \<open>
  A plugins directory with two plugins, listed as \<open>alpha\<close>, \<open>beta\<close>. The \<open>init\<close> of
  \<open>alpha\<close> throws \<open>null\<close> (\<open>async init() { throw null }\<close>, or a promise rejected without
  a reason); \<open>beta\<close> is well formed and registers one hook.
\<close>

definition nullish_init_fs :: "(nat, unit) plugins_fs" where
  "nullish_init_fs =
     \<lparr>dir_exists = True, mkdir_throws = None,
      readdir_entries = Inr [(''alpha'', True), (''beta'', True)],
      plugin_at = (\<lambda>name.
        if name = ''alpha'' then
          \<lparr>has_index = True, config_json = NoConfigFile,
           index_js = Exports
             \<lparr>m_name = Some ''alpha'', m_version = None, m_description = None,
              m_init = Some (\<lambda>config dir. ([], Some ThrowNullish))\<rparr>\<rparr>
        else
          \<lparr>has_index = True, config_json = NoConfigFile,
           index_js = Exports
             \<lparr>m_name = Some ''beta'', m_version = None, m_description = None,
              m_init = Some (\<lambda>config dir. ([RegisterHook ''afterUpload'' (\<lambda>x. ReturnsUndefined)], None))\<rparr>\<rparr>)\<rparr>"

text \<open>
  The same two directories, where \<open>alpha\<close> exports no \<open>init\<close>, listed among a template
  directory, a hidden directory and a file.
\<close>

definition missing_init_fs :: "(nat, unit) plugins_fs" where
  "missing_init_fs =
     \<lparr>dir_exists = True, mkdir_throws = None,
      readdir_entries =
        Inr [(''.git'', True), (''README.md'', False), (''_template'', True), (''alpha'', True),
             (''beta'', True)],
      plugin_at = (\<lambda>name.
        if name = ''alpha'' then
          \<lparr>has_index = True, config_json = NoConfigFile,
           index_js = Exports
             \<lparr>m_name = Some ''alpha'', m_version = None, m_description = None, m_init = None\<rparr>\<rparr>
        else
          \<lparr>has_index = True, config_json = NoConfigFile,
           index_js = Exports
             \<lparr>m_name = Some ''beta'', m_version = None, m_description = None,
              m_init = Some (\<lambda>config dir. ([RegisterHook ''afterUpload'' (\<lambda>x. ReturnsUndefined)], None))\<rparr>\<rparr>)\<rparr>"

text \<open>
  A directory \<open>/data/photos\<close> with three files of sizes 10, 20 and 30 and one empty
  subdirectory.
\<close>

definition photos_fs :: filesystem where
  "photos_fs =
     \<lparr>readdir = (\<lambda>p.
        if p = ''/data/photos'' then Inr [''a.jpg'', ''b.jpg'', ''c.jpg'', ''empty'']
        else if p = ''/data/photos/empty'' then Inr []
        else Inl ENOTDIR),
      stat = (\<lambda>p.
        if p = ''/data/photos/a.jpg'' then Inr \<lparr>isDirectory = False, st_size = 10\<rparr>
        else if p = ''/data/photos/b.jpg'' then Inr \<lparr>isDirectory = False, st_size = 20\<rparr>
        else if p = ''/data/photos/c.jpg'' then Inr \<lparr>isDirectory = False, st_size = 30\<rparr>
        else if p = ''/data/photos/empty'' then Inr \<lparr>isDirectory = True, st_size = 4096\<rparr>
        else Inl ENOENT)\<rparr>"

definition photos_stats :: "string \<Rightarrow> stats" where
  "photos_stats item =
     (if item = ''a.jpg'' then \<lparr>isDirectory = False, st_size = 10\<rparr>
      else if item = ''b.jpg'' then \<lparr>isDirectory = False, st_size = 20\<rparr>
      else if item = ''c.jpg'' then \<lparr>isDirectory = False, st_size = 30\<rparr>
      else \<lparr>isDirectory = True, st_size = 4096\<rparr>)"

text \<open>
  A storage root \<open>/data\<close> holding a file \<open>notes.txt\<close> of 5 bytes and a directory
  \<open>photos\<close>; \<open>photos\<close> holds a file \<open>a.jpg\<close> of 10 bytes and a directory \<open>locked\<close> that
  cannot be read (\<open>EACCES\<close>).
\<close>

definition locked_fs :: filesystem where
  "locked_fs =
     \<lparr>readdir = (\<lambda>p.
        if p = ''/data'' then Inr [''photos'', ''notes.txt'']
        else if p = ''/data/photos'' then Inr [''a.jpg'', ''locked'']
        else if p = ''/data/photos/locked'' then Inl EACCES
        else Inl ENOTDIR),
      stat = (\<lambda>p.
        if p = ''/data/photos'' then Inr \<lparr>isDirectory = True, st_size = 4096\<rparr>
        else if p = ''/data/notes.txt'' then Inr \<lparr>isDirectory = False, st_size = 5\<rparr>
        else if p = ''/data/photos/a.jpg'' then Inr \<lparr>isDirectory = False, st_size = 10\<rparr>
        else if p = ''/data/photos/locked'' then Inr \<lparr>isDirectory = True, st_size = 4096\<rparr>
        else Inl ENOENT)\<rparr>"

text \<open>
  A directory \<open>/data/photos\<close> with a file of \<open>2^53\<close> bytes and two files of one byte.
\<close>

definition huge_fs :: filesystem where
  "huge_fs =
     \<lparr>readdir = (\<lambda>p.
        if p = ''/data/photos'' then Inr [''a.jpg'', ''b.jpg'', ''c.jpg''] else Inl ENOTDIR),
      stat = (\<lambda>p.
        if p = ''/data/photos/a.jpg'' then Inr \<lparr>isDirectory = False, st_size = 9007199254740992\<rparr>
        else if p = ''/data/photos/b.jpg'' then Inr \<lparr>isDirectory = False, st_size = 1\<rparr>
        else if p = ''/data/photos/c.jpg'' then Inr \<lparr>isDirectory = False, st_size = 1\<rparr>
        else Inl ENOENT)\<rparr>"

section \<open>Properties of the hook chain\<close>

lemma registered_callbacks_registerHook:
  "registered_callbacks (registerHook h cb pm) h' =
     (if h' = h then registered_callbacks pm h @ [cb] else registered_callbacks pm h')"
  by (simp add: registered_callbacks_def registerHook_def Let_def split: option.splits)

lemma registered_callbacks_foldl_registerHook:
  "registered_callbacks (foldl (\<lambda>m cb. registerHook h cb m) pm cbs) h
     = registered_callbacks pm h @ cbs"
  by (induction cbs arbitrary: pm) (simp_all add: registered_callbacks_registerHook)

lemma hook_loop_fulfils:
  "\<forall>cb\<in>set cbs. \<forall>x. cb x \<noteq> Throws ThrowNullish \<Longrightarrow>
   fst (hook_loop h cbs d out) = Inr (foldl payload_after d cbs)"
proof (induction cbs arbitrary: d out)
  case Nil
  then show ?case by simp
next
  case (Cons cb cbs)
  then show ?case
    by (cases "cb d") (auto simp: payload_after_def split: thrown.splits)
qed

lemma hook_loop_append:
  "hook_loop h cs1 d out = (Inr p, out1) \<Longrightarrow>
   hook_loop h (cs1 @ cs2) d out = hook_loop h cs2 p out1"
proof (induction cs1 arbitrary: d out)
  case Nil
  then show ?case by simp
next
  case (Cons cb cbs)
  then show ?case
    by (cases "cb d") (auto split: thrown.splits)
qed

lemma executeHook_loop:
  "fst (executeHook h d pm) = fst (hook_loop h (registered_callbacks pm h) d [])"
  by (simp add: executeHook_def Let_def)

text \<open>
  C6. \<open>registerHook\<close> appends, so the callbacks of a hook name stand in registration
  order; \<open>executeHook\<close> runs them in that order from left to right, each on the current
  payload, where a callback returning \<open>undefined\<close> leaves the payload as it is and a
  returned value becomes the payload (\<open>payload_after\<close>); and with no callback registered
  for the hook name it returns the input payload and leaves the manager untouched. The
  hypothesis keeps to callbacks that do not throw \<open>null\<close> or \<open>undefined\<close>, on which the
  loop is left early.
\<close>

theorem executeHook_registration_order:
  fixes pm :: "('p, 'h) plugin_manager"
  assumes "\<forall>cb\<in>set (registered_callbacks pm hookName @ cbs). \<forall>x. cb x \<noteq> Throws ThrowNullish"
  shows "registered_callbacks (foldl (\<lambda>m cb. registerHook hookName cb m) pm cbs) hookName
           = registered_callbacks pm hookName @ cbs
       \<and> fst (executeHook hookName data (foldl (\<lambda>m cb. registerHook hookName cb m) pm cbs))
           = Inr (foldl payload_after data (registered_callbacks pm hookName @ cbs))
       \<and> (registered_callbacks pm hookName = [] \<longrightarrow> executeHook hookName data pm = (Inr data, pm))"
  using assms
  by (simp add: executeHook_loop registered_callbacks_foldl_registerHook hook_loop_fulfils)
     (simp add: executeHook_def)

theorem executeHook_registration_order_witness:
  "fst (executeHook ''transformFileList'' (5::nat)
     (foldl (\<lambda>m cb. registerHook ''transformFileList'' cb m)
        (new_PluginManager ''/app/plugins'' :: (nat, unit) plugin_manager)
        [\<lambda>x. Returns (x + 1), \<lambda>x. ReturnsUndefined, \<lambda>x. Returns (x * 2)])) = Inr 12
   \<and> executeHook ''transformFileList'' (5::nat)
        (new_PluginManager ''/app/plugins'' :: (nat, unit) plugin_manager)
      = (Inr 5, new_PluginManager ''/app/plugins'')"
proof -
  let ?pm = "new_PluginManager ''/app/plugins'' :: (nat, unit) plugin_manager"
  let ?cbs = "[\<lambda>x. Returns (x + 1), \<lambda>x. ReturnsUndefined, \<lambda>x. Returns (x * 2)] :: nat callback list"
  have none: "registered_callbacks ?pm ''transformFileList'' = []"
    by (simp add: registered_callbacks_def new_PluginManager_def)
  have h: "\<forall>cb\<in>set (registered_callbacks ?pm ''transformFileList'' @ ?cbs).
             \<forall>x. cb x \<noteq> Throws ThrowNullish"
    by (simp add: none)
  show ?thesis
    using executeHook_registration_order [OF h, of 5] none
    by (simp add: payload_after_def)
qed

text \<open>
  A callback that throws a value with a readable \<open>message\<close> is logged and skipped: with
  the callbacks \<open>cs1 @ cb # cs2\<close> registered, where \<open>cs1\<close> takes \<open>data\<close> to \<open>p\<close> and \<open>cb\<close>
  throws on \<open>p\<close>, \<open>executeHook\<close> goes on with \<open>cs2\<close> from the same \<open>p\<close>, one line
  \<open>ErrorInHook\<close> added to the console.
\<close>

lemma executeHook_continues_after_error:
  assumes "registered_callbacks pm hookName = cs1 @ cb # cs2"
    and "hook_loop hookName cs1 data [] = (Inr p, out1)"
    and "cb p = Throws (ThrowValue msg)"
  shows "executeHook hookName data pm =
           (fst (hook_loop hookName cs2 p (out1 @ [ErrorInHook hookName msg])),
            pm\<lparr>console := console pm
                   @ snd (hook_loop hookName cs2 p (out1 @ [ErrorInHook hookName msg]))\<rparr>)"
  using assms hook_loop_append [OF assms(2), of "cb # cs2"]
  by (simp add: executeHook_def Let_def)

lemma executeHook_three_callbacks_second_throws:
  assumes "registered_callbacks pm hookName = [cb1, cb2, cb3]"
    and "cb1 data = Returns p" and "cb2 p = Throws (ThrowValue msg)" and "cb3 p = Returns q"
  shows "executeHook hookName data pm = (Inr q, pm\<lparr>console := console pm @ [ErrorInHook hookName msg]\<rparr>)"
  using assms by (simp add: executeHook_def Let_def)

text \<open>
  C2. The claim is about every callback sequence in which a callback throws. Here the
  hook \<open>beforeUpload\<close> has three callbacks, the first adding one to the payload, the
  second throwing \<open>null\<close> (as \<open>throw null\<close>, or a promise rejected without a reason,
  does), the third doubling the payload. The \<open>catch\<close> block of \<open>executeHook\<close> reads
  \<open>error.message\<close> of the caught \<open>null\<close>, which throws a \<open>TypeError\<close>: \<open>executeHook\<close>
  rejects with it, nothing is logged, and the third callback is not run.
\<close>

theorem executeHook_nullish_throw_rejects:
  "executeHook ''beforeUpload'' (5::nat)
     (foldl (\<lambda>m cb. registerHook ''beforeUpload'' cb m)
        (new_PluginManager ''/app/plugins'' :: (nat, unit) plugin_manager)
        [\<lambda>x. Returns (x + 1), \<lambda>x. Throws ThrowNullish, \<lambda>x. Returns (x * 2)])
   = (Inl TypeError_message_of_nullish,
      foldl (\<lambda>m cb. registerHook ''beforeUpload'' cb m)
        (new_PluginManager ''/app/plugins'')
        [\<lambda>x. Returns (x + 1), \<lambda>x. Throws ThrowNullish, \<lambda>x. Returns (x * 2)])"
  by (simp add: executeHook_def registered_callbacks_def registerHook_def new_PluginManager_def Let_def)

section \<open>Properties of \<open>validatePath\<close>\<close>

lemma split_on_not_Nil: "split_on sep s \<noteq> []"
  by (induction s) (auto split: list.splits)

lemma split_on_append:
  "split_on sep (a @ sep # b) = split_on sep a @ split_on sep b"
proof (induction a)
  case Nil
  then show ?case by simp
next
  case (Cons c a)
  then show ?case
    using split_on_not_Nil [of sep a] by (auto split: list.splits)
qed

lemma split_on_no_sep: "w \<in> set (split_on sep s) \<Longrightarrow> sep \<notin> set w"
  by (induction s arbitrary: w) (auto split: if_splits list.splits)

lemma split_on_sep_free: "sep \<notin> set w \<Longrightarrow> split_on sep w = [w]"
  by (induction w) auto

lemma split_on_join_with:
  "ws \<noteq> [] \<Longrightarrow> \<forall>w\<in>set ws. sep \<notin> set w \<Longrightarrow> split_on sep (join_with sep ws) = ws"
proof (induction sep ws rule: join_with.induct)
  case (1 sep)
  then show ?case by simp
next
  case (2 sep s)
  then show ?case by (simp add: split_on_sep_free)
next
  case (3 sep s t ts)
  then show ?case by (simp add: split_on_append split_on_sep_free)
qed

lemma str_includes_sublist: "str_includes s sub \<longleftrightarrow> sublist sub s"
  by (induction s) (auto simp: sublist_Cons_right)

lemma split_on_hd_prefix: "split_on sep s = v # vs \<Longrightarrow> prefix v s"
  by (induction s arbitrary: v vs) (auto split: if_splits list.splits)

lemma split_on_sublist: "w \<in> set (split_on sep s) \<Longrightarrow> sublist w s"
proof (induction s arbitrary: w)
  case Nil
  then show ?case by simp
next
  case (Cons c s)
  show ?case
  proof (cases "c = sep")
    case True
    with Cons show ?thesis by (auto simp: sublist_Cons_right)
  next
    case False
    obtain v vs where vs: "split_on sep s = v # vs"
      using split_on_not_Nil [of sep s] by (cases "split_on sep s") auto
    with False Cons.prems have "w = c # v \<or> w \<in> set vs" by auto
    then show ?thesis
    proof
      assume w: "w = c # v"
      have "prefix v s" using vs by (rule split_on_hd_prefix)
      then show ?thesis using w by (auto simp: sublist_Cons_right)
    next
      assume "w \<in> set vs"
      then show ?thesis using Cons.IH vs by (auto simp: sublist_Cons_right)
    qed
  qed
qed

lemma foldl_normalize_step_no_dotdot:
  "''..'' \<notin> set segs \<Longrightarrow>
   foldl (normalize_step allow) res segs = res @ filter kept segs"
  by (induction segs arbitrary: res) (auto simp: normalize_step_def kept_def)

lemma segments_Cons_slash: "segments (CHR ''/'' # p) = segments p"
  by (simp add: segments_def)

lemma segments_snoc_slash: "segments (p @ ''/'') = segments p"
  using split_on_append [of "CHR ''/''" p "[]"] by (simp add: segments_def)

lemma segments_join_with:
  "\<forall>w\<in>set ws. w \<noteq> [] \<and> CHR ''/'' \<notin> set w \<Longrightarrow> segments (join_with CHR ''/'' ws) = ws"
proof (cases "ws = []")
  case True
  then show ?thesis by (simp add: segments_def)
next
  case False
  assume "\<forall>w\<in>set ws. w \<noteq> [] \<and> CHR ''/'' \<notin> set w"
  with False show ?thesis
    by (simp add: segments_def split_on_join_with filter_id_conv)
qed

lemma join_with_eq_Nil: "\<forall>w\<in>set ws. w \<noteq> [] \<Longrightarrow> join_with sep ws = [] \<longleftrightarrow> ws = []"
  by (induction sep ws rule: join_with.induct) auto


lemma kept_split_clean:
  "w \<in> set (filter kept (split_on CHR ''/'' x)) \<Longrightarrow> w \<noteq> [] \<and> CHR ''/'' \<notin> set w"
  by (auto simp: kept_def dest: split_on_no_sep)

lemma posix_normalize_no_dotdot:
  assumes "x \<noteq> []" and "''..'' \<notin> set (split_on CHR ''/'' x)"
    and "filter kept (split_on CHR ''/'' x) \<noteq> []"
  shows "posix_normalize x =
           (if hd x = CHR ''/'' then ''/'' else []) @ join_with CHR ''/'' (filter kept (split_on CHR ''/'' x))
             @ (if last x = CHR ''/'' then ''/'' else [])"
proof -
  let ?ws = "filter kept (split_on CHR ''/'' x)"
  have n: "normalizeString x allow = join_with CHR ''/'' ?ws" for allow
    using assms(2) by (simp add: normalizeString_def foldl_normalize_step_no_dotdot)
  have "\<forall>w\<in>set ?ws. w \<noteq> []" using kept_split_clean by blast
  then have "join_with CHR ''/'' ?ws \<noteq> []"
    using assms(3) join_with_eq_Nil by blast
  then show ?thesis
    using assms(1) by (simp add: posix_normalize_def n Let_def)
qed

lemma posix_normalize_absolute_empty:
  assumes "x \<noteq> []" and "hd x = CHR ''/''" and "''..'' \<notin> set (split_on CHR ''/'' x)"
    and "filter kept (split_on CHR ''/'' x) = []"
  shows "posix_normalize x = ''/''"
  using assms by (simp add: posix_normalize_def normalizeString_def foldl_normalize_step_no_dotdot Let_def)

lemma segments_posix_normalize:
  assumes "x \<noteq> []" and "''..'' \<notin> set (split_on CHR ''/'' x)"
    and "filter kept (split_on CHR ''/'' x) \<noteq> []"
  shows "segments (posix_normalize x) = filter kept (split_on CHR ''/'' x)"
proof -
  let ?ws = "filter kept (split_on CHR ''/'' x)"
  have clean: "\<forall>w\<in>set ?ws. w \<noteq> [] \<and> CHR ''/'' \<notin> set w"
    using kept_split_clean by blast
  have a: "segments (join_with CHR ''/'' ?ws) = ?ws"
    using clean by (rule segments_join_with)
  have b: "segments (join_with CHR ''/'' ?ws @ ''/'') = ?ws"
    using a by (simp only: segments_snoc_slash)
  show ?thesis
    unfolding posix_normalize_no_dotdot [OF assms]
    using a b by (simp add: segments_Cons_slash)
qed

lemma no_dotdot_segment:
  "\<not> str_includes s ''..'' \<Longrightarrow> ''..'' \<notin> set (split_on CHR ''/'' s)"
  using split_on_sublist [of "''..''" "CHR ''/''" s] by (auto simp: str_includes_sublist)

lemma split_on_joined:
  "split_on CHR ''/'' (join_with CHR ''/'' (filter (\<lambda>arg. arg \<noteq> []) [a, b]))
     = (if a = [] then split_on CHR ''/'' b
        else if b = [] then split_on CHR ''/'' a
        else split_on CHR ''/'' a @ split_on CHR ''/'' b)"
  by (simp add: split_on_append)

lemma filter_kept_segments:
  "\<forall>seg\<in>set (segments root). seg \<noteq> ''.'' \<Longrightarrow>
   filter kept (split_on CHR ''/'' root) = segments root"
  unfolding segments_def kept_def by (rule filter_cong) auto

lemma segments_posix_join:
  assumes root: "\<forall>seg\<in>set (segments root). seg \<noteq> ''.'' \<and> seg \<noteq> ''..''"
    and cleaned: "\<not> str_includes cleaned ''..''"
    and ne: "segments root \<noteq> []"
  shows "segments (posix_join [root, cleaned])
           = segments root @ filter kept (split_on CHR ''/'' cleaned)"
proof -
  let ?x = "join_with CHR ''/'' (filter (\<lambda>arg. arg \<noteq> []) [root, cleaned])"
  have r0: "root \<noteq> []" using ne by (auto simp: segments_def)
  have r1: "''..'' \<notin> set (split_on CHR ''/'' root)"
    using root by (auto simp: segments_def)
  have c1: "''..'' \<notin> set (split_on CHR ''/'' cleaned)"
    using cleaned by (rule no_dotdot_segment)
  have fr: "filter kept (split_on CHR ''/'' root) = segments root"
    using root by (simp add: filter_kept_segments)
  have c0: "cleaned = [] \<Longrightarrow> filter kept (split_on CHR ''/'' cleaned) = []"
    by (simp add: kept_def)
  have x0: "?x \<noteq> []" using r0 by auto
  have x1: "''..'' \<notin> set (split_on CHR ''/'' ?x)"
    unfolding split_on_joined using r0 r1 c1 by auto
  have x2: "filter kept (split_on CHR ''/'' ?x) = segments root @ filter kept (split_on CHR ''/'' cleaned)"
    unfolding split_on_joined using r0 fr c0 by auto
  have x3: "filter kept (split_on CHR ''/'' ?x) \<noteq> []"
    using x2 ne by simp
  have "posix_join [root, cleaned] = posix_normalize ?x"
    using r0 by (simp add: posix_join_def)
  then show ?thesis
    using segments_posix_normalize [OF x0 x1 x3] x2 by simp
qed

text \<open>
  C1. Whenever \<open>validatePath\<close> returns a path, the segment sequence of that path begins
  with the segment sequence of the storage root, segment by segment; in particular, for
  the root \<open>/data\<close> the sibling \<open>/data-other\<close> is never returned. The root is any path
  none of whose segments is \<open>.\<close> or \<open>..\<close> (as every normalized absolute path is); the
  input is arbitrary.
\<close>

theorem validatePath_segment_prefix:
  assumes "\<forall>seg\<in>set (segments root). seg \<noteq> ''.'' \<and> seg \<noteq> ''..''"
    and "validatePath root userPath = Inr full"
  shows "prefix (segments root) (segments full) \<and> (root = ''/data'' \<longrightarrow> full \<noteq> ''/data-other'')"
proof -
  have p: "prefix (segments root) (segments full)"
  proof (cases "userPath = [] \<or> userPath = ''/''")
    case True
    with assms(2) show ?thesis by (auto simp: validatePath_def)
  next
    case False
    with assms(2) have c: "\<not> str_includes (strip_slashes userPath) ''..''"
      and f: "full = posix_join [root, strip_slashes userPath]"
      by (auto simp: validatePath_def Let_def split: if_splits)
    show ?thesis
    proof (cases "segments root = []")
      case True
      then show ?thesis by simp
    next
      case False
      then show ?thesis
        using segments_posix_join [OF assms(1) c False] f by simp
    qed
  qed
  moreover have "root = ''/data'' \<longrightarrow> full \<noteq> ''/data-other''"
  proof (intro impI notI)
    assume "root = ''/data''" and "full = ''/data-other''"
    with p show False by (simp add: segments_def)
  qed
  ultimately show ?thesis by simp
qed

theorem validatePath_segment_prefix_witness:
  "validatePath ''/data'' ''photos/vacation'' = Inr ''/data/photos/vacation''
   \<and> prefix (segments ''/data'') (segments ''/data/photos/vacation'')"
proof -
  have r: "\<forall>seg\<in>set (segments ''/data''). seg \<noteq> ''.'' \<and> seg \<noteq> ''..''"
    by (simp add: segments_def)
  have v: "validatePath ''/data'' ''photos/vacation'' = Inr ''/data/photos/vacation''"
    by (simp add: validatePath_def strip_slashes_def posix_isAbsolute_def posix_join_def
        posix_normalize_def normalizeString_def normalize_step_def)
  show ?thesis
    using validatePath_segment_prefix [OF r v] v by simp
qed


lemma rev_dropWhile_rev_hd:
  "rev (dropWhile P (rev t)) \<noteq> [] \<Longrightarrow> hd (rev (dropWhile P (rev t))) = hd t"
proof (induction t rule: rev_induct)
  case Nil
  then show ?case by simp
next
  case (snoc x xs)
  show ?case
  proof (cases "P x")
    case True
    with snoc show ?thesis by (cases xs) simp_all
  next
    case False
    then show ?thesis by simp
  qed
qed


lemma strip_slashes_not_absolute: "\<not> posix_isAbsolute (strip_slashes p)"
proof
  assume a: "posix_isAbsolute (strip_slashes p)"
  define t where "t = dropWhile (\<lambda>c. c = CHR ''/'') p"
  have s: "strip_slashes p = rev (dropWhile (\<lambda>c. c = CHR ''/'') (rev t))"
    by (simp add: strip_slashes_def t_def)
  from a have ne: "rev (dropWhile (\<lambda>c. c = CHR ''/'') (rev t)) \<noteq> []"
    and h: "hd (rev (dropWhile (\<lambda>c. c = CHR ''/'') (rev t))) = CHR ''/''"
    by (simp_all add: posix_isAbsolute_def s)
  from ne have e: "hd (rev (dropWhile (\<lambda>c. c = CHR ''/'') (rev t))) = hd t"
    by (rule rev_dropWhile_rev_hd)
  from ne have "t \<noteq> []" by auto
  then have "hd t \<noteq> CHR ''/''"
    unfolding t_def using hd_dropWhile [of "\<lambda>c. c = CHR ''/''" p] by blast
  with e h show False by simp
qed

lemma validatePath_InvalidPath_iff:
  "validatePath root p = Inl InvalidPath
     \<longleftrightarrow> p \<noteq> [] \<and> p \<noteq> ''/'' \<and> str_includes (strip_slashes p) ''..''"
proof (cases "p = [] \<or> p = ''/''")
  case True
  then show ?thesis by (auto simp: validatePath_def)
next
  case False
  then show ?thesis
    by (simp add: validatePath_def Let_def strip_slashes_not_absolute)
qed

lemma prefix_join_with_append: "prefix (join_with sep ws) (join_with sep (ws @ cs))"
proof (induction sep ws rule: join_with.induct)
  case (1 sep)
  then show ?case by simp
next
  case (2 sep s)
  then show ?case by (cases cs) simp_all
next
  case (3 sep s t ts)
  then show ?case by simp
qed

lemma joined_facts:
  assumes r0: "root \<noteq> []" and r1: "''..'' \<notin> set (split_on CHR ''/'' root)"
    and cleaned: "\<not> str_includes cleaned ''..''"
  defines "x \<equiv> join_with CHR ''/'' (filter (\<lambda>arg. arg \<noteq> []) [root, cleaned])"
  shows "x \<noteq> []" and "hd x = hd root" and "''..'' \<notin> set (split_on CHR ''/'' x)"
    and "filter kept (split_on CHR ''/'' x)
           = filter kept (split_on CHR ''/'' root) @ filter kept (split_on CHR ''/'' cleaned)"
    and "posix_join [root, cleaned] = posix_normalize x"
proof -
  have c1: "''..'' \<notin> set (split_on CHR ''/'' cleaned)"
    using cleaned by (rule no_dotdot_segment)
  have c0: "cleaned = [] \<Longrightarrow> filter kept (split_on CHR ''/'' cleaned) = []"
    by (simp add: kept_def)
  show "x \<noteq> []" using r0 by (auto simp: x_def)
  show "hd x = hd root" using r0 by (auto simp: x_def)
  show "''..'' \<notin> set (split_on CHR ''/'' x)"
    unfolding x_def split_on_joined using r0 r1 c1 by auto
  show "filter kept (split_on CHR ''/'' x)
           = filter kept (split_on CHR ''/'' root) @ filter kept (split_on CHR ''/'' cleaned)"
    unfolding x_def split_on_joined using r0 c0 by auto
  show "posix_join [root, cleaned] = posix_normalize x"
    using r0 by (simp add: posix_join_def x_def)
qed

lemma canonical_root_prefix_join:
  assumes root: "canonical_root root" and cleaned: "\<not> str_includes cleaned ''..''"
  shows "prefix root (posix_join [root, cleaned])"
proof -
  define ws where "ws = segments root"
  define cs where "cs = filter kept (split_on CHR ''/'' cleaned)"
  define x where "x = join_with CHR ''/'' (filter (\<lambda>arg. arg \<noteq> []) [root, cleaned])"
  define r where "r = CHR ''/'' # join_with CHR ''/'' ws"
  have shape: "root = r"
    and nodots: "\<forall>seg\<in>set (segments root). seg \<noteq> ''.'' \<and> seg \<noteq> ''..''"
    using root by (simp_all add: canonical_root_def ws_def r_def)
  have hr: "hd root = CHR ''/''" and r0: "root \<noteq> []"
    unfolding shape by (simp_all add: r_def)
  have r1: "''..'' \<notin> set (split_on CHR ''/'' root)"
    using nodots by (auto simp: segments_def)
  have fr: "filter kept (split_on CHR ''/'' root) = ws"
    unfolding ws_def using nodots by (simp add: filter_kept_segments)
  note j = joined_facts [OF r0 r1 cleaned, folded x_def]
  have hx: "hd x = CHR ''/''" using j(2) hr by simp
  have x2: "filter kept (split_on CHR ''/'' x) = ws @ cs"
    using j(4) fr by (simp add: cs_def)
  have "prefix r (posix_normalize x)"
  proof (cases "ws @ cs = []")
    case True
    then have "filter kept (split_on CHR ''/'' x) = []" using x2 by simp
    then have "posix_normalize x = ''/''"
      using posix_normalize_absolute_empty [OF j(1) hx j(3)] by simp
    moreover have "r = ''/''"
      using True by (simp add: r_def)
    ultimately show ?thesis by simp
  next
    case False
    then have x3: "filter kept (split_on CHR ''/'' x) \<noteq> []"
      using x2 by simp
    have "posix_normalize x =
            CHR ''/'' # join_with CHR ''/'' (ws @ cs) @ (if last x = CHR ''/'' then ''/'' else [])"
      using posix_normalize_no_dotdot [OF j(1) j(3) x3] hx x2 by simp
    moreover have "prefix (join_with CHR ''/'' ws)
            (join_with CHR ''/'' (ws @ cs) @ (if last x = CHR ''/'' then ''/'' else []))"
      using prefix_join_with_append [of "CHR ''/''" ws cs] by (rule prefix_prefix)
    ultimately show ?thesis by (simp add: r_def)
  qed
  then have "prefix root (posix_normalize x)"
    by (simp only: shape)
  then show ?thesis
    by (simp only: j(5))
qed

lemma validatePath_canonical_never_outside:
  assumes "canonical_root root"
  shows "validatePath root p \<noteq> Inl PathOutsideStorage"
proof (cases "str_includes (strip_slashes p) ''..''")
  case True
  then show ?thesis by (simp add: validatePath_def Let_def)
next
  case False
  then have "prefix root (posix_join [root, strip_slashes p])"
    using assms by (simp add: canonical_root_prefix_join)
  then show ?thesis by (simp add: validatePath_def Let_def)
qed


text \<open>
  C3, as amended. \<open>validatePath\<close> throws \<open>Invalid path\<close> exactly when the input is neither
  empty nor \<open>/\<close> and, with the slashes at its two ends removed, contains two consecutive
  dots anywhere (as a substring, so \<open>a..b\<close> is rejected as well); a leading slash alone
  never causes a rejection, since it is removed before \<open>path.isAbsolute\<close> is asked. For
  a storage root that is a normalized absolute path without a trailing slash, every
  other input succeeds.
\<close>

theorem validatePath_invalid_iff:
  "(validatePath root p = Inl InvalidPath
      \<longleftrightarrow> p \<noteq> [] \<and> p \<noteq> ''/'' \<and> str_includes (strip_slashes p) ''..'')
   \<and> (canonical_root root \<longrightarrow>
        ((\<exists>full. validatePath root p = Inr full)
           \<longleftrightarrow> \<not> (p \<noteq> [] \<and> p \<noteq> ''/'' \<and> str_includes (strip_slashes p) ''..'')))"
proof -
  have a: "validatePath root p = Inl InvalidPath
      \<longleftrightarrow> p \<noteq> [] \<and> p \<noteq> ''/'' \<and> str_includes (strip_slashes p) ''..''"
    by (rule validatePath_InvalidPath_iff)
  have "(\<exists>full. validatePath root p = Inr full) \<longleftrightarrow> validatePath root p \<noteq> Inl InvalidPath"
    if "canonical_root root"
  proof -
    have "validatePath root p \<noteq> Inl PathOutsideStorage"
      using that by (rule validatePath_canonical_never_outside)
    show ?thesis
    proof (cases "validatePath root p")
      case (Inl e)
      with \<open>validatePath root p \<noteq> Inl PathOutsideStorage\<close> show ?thesis
        by (cases e) simp_all
    next
      case (Inr full)
      then show ?thesis by simp
    qed
  qed
  then show ?thesis using a by blast
qed


theorem validatePath_invalid_iff_witness:
  "canonical_root ''/data''
   \<and> validatePath ''/data'' ''docs/a..b'' = Inl InvalidPath
   \<and> (\<exists>full. validatePath ''/data'' ''/etc/passwd'' = Inr full)"
proof -
  have c: "canonical_root ''/data''"
    by (simp add: canonical_root_def segments_def)
  have i: "str_includes (strip_slashes ''docs/a..b'') ''..''"
    by (simp add: strip_slashes_def)
  have n: "\<not> str_includes (strip_slashes ''/etc/passwd'') ''..''"
    by (simp add: strip_slashes_def)
  have "validatePath ''/data'' ''docs/a..b'' = Inl InvalidPath"
    using validatePath_invalid_iff [of "''/data''" "''docs/a..b''", THEN conjunct1] i by simp
  moreover have "\<exists>full. validatePath ''/data'' ''/etc/passwd'' = Inr full"
    using validatePath_invalid_iff [of "''/data''" "''/etc/passwd''", THEN conjunct2] c n by blast
  ultimately show ?thesis using c by simp
qed

text \<open>
  C3 as stated fails in both directions. The input \<open>a..b\<close> is relative and has no
  segment \<open>..\<close>, yet is rejected with \<open>Invalid path\<close>; the input \<open>/etc\<close> is an absolute
  path, yet is accepted and resolved to \<open>/data/etc\<close>.
\<close>

theorem validatePath_invalid_counterexample:
  "validatePath ''/data'' ''a..b'' = Inl InvalidPath
   \<and> ''..'' \<notin> set (segments ''a..b'') \<and> \<not> posix_isAbsolute ''a..b''
   \<and> validatePath ''/data'' ''/etc'' = Inr ''/data/etc'' \<and> posix_isAbsolute ''/etc''"
  by (simp add: validatePath_def strip_slashes_def posix_isAbsolute_def posix_join_def
        posix_normalize_def normalizeString_def normalize_step_def segments_def)

section \<open>Properties of plugin loading\<close>

lemma run_init_call_frame:
  "plugins (run_init_call pm c) = plugins pm"
  "console (run_init_call pm c) = console pm"
  "pluginsDir (run_init_call pm c) = pluginsDir pm"
  by (cases c; simp add: registerHook_def addRoute_def Let_def)+

lemma foldl_run_init_call_frame:
  "plugins (foldl run_init_call pm cs) = plugins pm"
  "console (foldl run_init_call pm cs) = console pm"
  "pluginsDir (foldl run_init_call pm cs) = pluginsDir pm"
  by (induction cs arbitrary: pm) (simp_all add: run_init_call_frame)

lemma TypeError_not_nullish [simp]: "TypeError_message_of_nullish \<noteq> ThrowNullish"
  by (simp add: TypeError_message_of_nullish_def)

lemma get_property_not_nullish: "get_property j k \<noteq> Inl ThrowNullish"
  by (cases j) simp_all

lemma loadPlugin_rejects_iff:
  "(\<exists>e. fst (loadPlugin env name pm) = Inl e)
     \<longleftrightarrow> throws_nullish (plugin_at env name) (posix_join [pluginsDir pm, name])"
  using get_property_not_nullish [of _ "''enabled''"]
  by (auto simp: loadPlugin_def loadPlugin_try_def throws_nullish_def load_config_def
        validatePlugin_def initialize_plugin_def Let_def TypeError_message_of_nullish_def
      split: sum.splits thrown.splits required.splits option.splits config_file.splits prod.splits if_splits)


lemma loadPlugin_plugins:
  "plugins (snd (loadPlugin env name pm)) =
     (if plugin_loads (plugin_at env name) (posix_join [pluginsDir pm, name])
      then (case index_js (plugin_at env name) of
              Exports plugin \<Rightarrow>
                AList.update name
                  \<lparr>p_name = js_or (m_name plugin) name,
                   p_version = js_or (m_version plugin) ''1.0.0'',
                   p_description = js_or (m_description plugin) []\<rparr> (plugins pm)
            | _ \<Rightarrow> plugins pm)
      else plugins pm)"
  by (auto simp: loadPlugin_def loadPlugin_try_def plugin_loads_def load_config_def
        validatePlugin_def initialize_plugin_def Let_def log_line_def foldl_run_init_call_frame
      split: sum.splits thrown.splits required.splits option.splits config_file.splits prod.splits if_splits)

lemma loadPlugin_pluginsDir:
  "pluginsDir (snd (loadPlugin env name pm)) = pluginsDir pm"
  by (auto simp: loadPlugin_def loadPlugin_try_def load_config_def
        validatePlugin_def initialize_plugin_def Let_def log_line_def foldl_run_init_call_frame
      split: sum.splits thrown.splits required.splits option.splits config_file.splits prod.splits if_splits)

lemma getPluginInfo_plugins: "getPluginInfo pm = map snd (plugins pm)"
  by (simp add: getPluginInfo_def)


text \<open>
  C8. When the configuration record of a plugin has \<open>enabled\<close> equal to \<open>false\<close>,
  \<open>loadPlugin\<close> returns normally and leaves the hook map, the route list and the plugin
  map exactly as they were, so \<open>getPluginInfo\<close> lists what it listed before: none of the
  plugin's hooks or routes is registered, and the plugin does not appear.
\<close>

theorem loadPlugin_disabled_frame:
  assumes "config_json (plugin_at env pluginName) = ConfigFile config"
    and "get_property config ''enabled'' = Inr (Some (JBool False))"
  shows "fst (loadPlugin env pluginName pm) = Inr ()
       \<and> hooks (snd (loadPlugin env pluginName pm)) = hooks pm
       \<and> routes (snd (loadPlugin env pluginName pm)) = routes pm
       \<and> plugins (snd (loadPlugin env pluginName pm)) = plugins pm
       \<and> getPluginInfo (snd (loadPlugin env pluginName pm)) = getPluginInfo pm"
  using assms
  by (simp add: loadPlugin_def loadPlugin_try_def load_config_def Let_def log_line_def
        getPluginInfo_def)

theorem loadPlugin_disabled_frame_witness:
  "hooks (snd (loadPlugin disabled_plugin_fs ''audit-log'' (new_PluginManager ''/app/plugins'')))
     = Map.empty
   \<and> routes (snd (loadPlugin disabled_plugin_fs ''audit-log'' (new_PluginManager ''/app/plugins''))) = []
   \<and> getPluginInfo (snd (loadPlugin disabled_plugin_fs ''audit-log'' (new_PluginManager ''/app/plugins''))) = []"
proof -
  have c: "config_json (plugin_at disabled_plugin_fs ''audit-log'')
             = ConfigFile (JObj [(''enabled'', JBool False)])"
    by (simp add: disabled_plugin_fs_def)
  have e: "get_property (JObj [(''enabled'', JBool False)]) ''enabled'' = Inr (Some (JBool False))"
    by simp
  show ?thesis
    using loadPlugin_disabled_frame [OF c e, of "new_PluginManager ''/app/plugins''"]
    by (simp add: new_PluginManager_def getPluginInfo_def)
qed

text \<open>
  C10. After a plugin has loaded, the plugin map holds an entry under its directory
  name, and \<open>getPluginInfo\<close> returns it: its name is the directory name when the module
  exports no name, its version is \<open>1.0.0\<close> when the module exports no version, and its
  description is the empty string when the module exports no description.
\<close>

theorem getPluginInfo_defaults:
  assumes "plugin_loads (plugin_at env pluginName) (posix_join [pluginsDir pm, pluginName])"
    and "index_js (plugin_at env pluginName) = Exports plugin"
  shows "\<exists>entry. map_of (plugins (snd (loadPlugin env pluginName pm))) pluginName = Some entry
           \<and> entry \<in> set (getPluginInfo (snd (loadPlugin env pluginName pm)))
           \<and> p_name entry = (if m_name plugin = None then pluginName else js_or (m_name plugin) pluginName)
           \<and> p_version entry = (if m_version plugin = None then ''1.0.0'' else js_or (m_version plugin) ''1.0.0'')
           \<and> p_description entry = (if m_description plugin = None then [] else js_or (m_description plugin) [])"
proof -
  let ?e = "\<lparr>p_name = js_or (m_name plugin) pluginName,
             p_version = js_or (m_version plugin) ''1.0.0'',
             p_description = js_or (m_description plugin) []\<rparr>"
  have p: "plugins (snd (loadPlugin env pluginName pm)) = AList.update pluginName ?e (plugins pm)"
    using assms by (simp add: loadPlugin_plugins)
  have m: "map_of (plugins (snd (loadPlugin env pluginName pm))) pluginName = Some ?e"
    by (simp add: p update_conv')
  then have "(pluginName, ?e) \<in> set (plugins (snd (loadPlugin env pluginName pm)))"
    by (rule map_of_SomeD)
  then have "?e \<in> set (getPluginInfo (snd (loadPlugin env pluginName pm)))"
    unfolding getPluginInfo_plugins by force
  with m show ?thesis
    by (intro exI [of _ ?e]) (simp add: js_or_def)
qed


theorem getPluginInfo_defaults_witness:
  "getPluginInfo (snd (loadPlugin bare_plugin_fs ''thumbnails'' (new_PluginManager ''/app/plugins'')))
     = [\<lparr>p_name = ''thumbnails'', p_version = ''1.0.0'', p_description = []\<rparr>]"
proof -
  let ?pm = "new_PluginManager ''/app/plugins'' :: (nat, unit) plugin_manager"
  let ?m = "\<lparr>m_name = None, m_version = None, m_description = None,
            m_init = Some (\<lambda>config dir. ([RegisterHook ''afterUpload'' (\<lambda>x::nat. ReturnsUndefined)] :: (nat, unit) init_call list, None))\<rparr>"
  have l: "plugin_loads (plugin_at bare_plugin_fs ''thumbnails'') (posix_join [pluginsDir ?pm, ''thumbnails''])"
    by (simp add: plugin_loads_def bare_plugin_fs_def load_config_def)
  have x: "index_js (plugin_at bare_plugin_fs ''thumbnails'') = Exports ?m"
    by (simp add: bare_plugin_fs_def)
  have "plugins (snd (loadPlugin bare_plugin_fs ''thumbnails'' ?pm))
          = [(''thumbnails'', \<lparr>p_name = ''thumbnails'', p_version = ''1.0.0'', p_description = []\<rparr>)]"
    using l x by (simp add: loadPlugin_plugins new_PluginManager_def js_or_def)
  then show ?thesis
    using getPluginInfo_defaults [OF l x]
    by (simp add: getPluginInfo_plugins)
qed

lemma map_fst_update:
  "map fst (AList.update k v al) = (if k \<in> fst ` set al then map fst al else map fst al @ [k])"
  by (induction al) auto

lemma loadPlugin_fulfils:
  "\<not> throws_nullish (plugin_at env name) (posix_join [pluginsDir pm, name]) \<Longrightarrow>
   fst (loadPlugin env name pm) = Inr ()"
  using loadPlugin_rejects_iff [of env name pm]
  by (cases "fst (loadPlugin env name pm)") auto

lemma loadPlugin_keys:
  "map fst (plugins (snd (loadPlugin env name pm))) =
     (if plugin_loads (plugin_at env name) (posix_join [pluginsDir pm, name])
         \<and> name \<notin> fst ` set (plugins pm)
      then map fst (plugins pm) @ [name] else map fst (plugins pm))"
  by (auto simp: loadPlugin_plugins map_fst_update plugin_loads_def
      split: required.splits sum.splits)

lemma load_each_keys:
  assumes "distinct names" and "set names \<inter> fst ` set (plugins pm) = {}"
    and "\<forall>n\<in>set names. \<not> throws_nullish (plugin_at env n) (posix_join [pluginsDir pm, n])"
  shows "fst (load_each env names pm) = Inr ()
       \<and> pluginsDir (snd (load_each env names pm)) = pluginsDir pm
       \<and> map fst (plugins (snd (load_each env names pm)))
           = map fst (plugins pm)
             @ filter (\<lambda>n. plugin_loads (plugin_at env n) (posix_join [pluginsDir pm, n])) names"
  using assms
proof (induction names arbitrary: pm)
  case Nil
  then show ?case by simp
next
  case (Cons n names)
  obtain r pm1 where l: "loadPlugin env n pm = (r, pm1)"
    by (cases "loadPlugin env n pm")
  have r: "r = Inr ()"
    using loadPlugin_fulfils [of env n pm] Cons.prems(3) l by simp
  have d: "pluginsDir pm1 = pluginsDir pm"
    using loadPlugin_pluginsDir [of env n pm] l by simp
  have k: "map fst (plugins pm1) =
     (if plugin_loads (plugin_at env n) (posix_join [pluginsDir pm, n])
      then map fst (plugins pm) @ [n] else map fst (plugins pm))"
    using loadPlugin_keys [of env n pm] l Cons.prems(2) by auto
  have "fst ` set (plugins pm1) \<subseteq> insert n (fst ` set (plugins pm))"
  proof -
    have "set (map fst (plugins pm1)) \<subseteq> insert n (set (map fst (plugins pm)))"
      unfolding k by auto
    then show ?thesis by simp
  qed
  then have dis: "set names \<inter> fst ` set (plugins pm1) = {}"
    using Cons.prems(1,2) by auto
  have "distinct names" using Cons.prems(1) by simp
  moreover have "\<forall>m\<in>set names. \<not> throws_nullish (plugin_at env m) (posix_join [pluginsDir pm1, m])"
    using Cons.prems(3) d by simp
  ultimately have ih: "fst (load_each env names pm1) = Inr ()
       \<and> pluginsDir (snd (load_each env names pm1)) = pluginsDir pm1
       \<and> map fst (plugins (snd (load_each env names pm1)))
           = map fst (plugins pm1)
             @ filter (\<lambda>n. plugin_loads (plugin_at env n) (posix_join [pluginsDir pm1, n])) names"
    using Cons.IH [of pm1] dis by blast
  have e: "load_each env (n # names) pm = load_each env names pm1"
    using l r by simp
  show ?case
    unfolding e using ih d k by simp
qed


text \<open>
  As long as no plugin throws \<open>null\<close> or \<open>undefined\<close> while it is loaded, \<open>loadPlugins\<close>
  returns normally and the plugin map holds, in the order of the directory listing,
  exactly the plugins that load: a missing \<open>index.js\<close>, an unreadable configuration, a
  missing \<open>init\<close> or an \<open>init\<close> throwing an \<open>Error\<close> skips that plugin only. With one
  plugin that loads and one that does not, \<open>getPluginInfo\<close> has one entry.
\<close>

lemma loadPlugins_isolates_failures:
  fixes env :: "('p, 'h) plugins_fs"
  assumes "dir_exists env" and "readdir_entries env = Inr entries"
    and "distinct (pluginDirs entries)"
    and "\<forall>n\<in>set (pluginDirs entries). \<not> throws_nullish (plugin_at env n) (posix_join [dir, n])"
  shows "fst (loadPlugins env (new_PluginManager dir)) = Inr ()
       \<and> map fst (plugins (snd (loadPlugins env (new_PluginManager dir))))
           = filter (\<lambda>n. plugin_loads (plugin_at env n) (posix_join [dir, n])) (pluginDirs entries)"
proof -
  let ?pm = "log_line (LoadingPluginsFrom dir) (new_PluginManager dir :: ('p, 'h) plugin_manager)"
  have p: "plugins ?pm = []" and d: "pluginsDir ?pm = dir"
    by (simp_all add: log_line_def new_PluginManager_def)
  have "set (pluginDirs entries) \<inter> fst ` set (plugins ?pm) = {}"
    by (simp add: p)
  moreover have "\<forall>n\<in>set (pluginDirs entries).
      \<not> throws_nullish (plugin_at env n) (posix_join [pluginsDir ?pm, n])"
    using assms(4) by (simp add: d)
  ultimately have k: "fst (load_each env (pluginDirs entries) ?pm) = Inr ()
       \<and> pluginsDir (snd (load_each env (pluginDirs entries) ?pm)) = pluginsDir ?pm
       \<and> map fst (plugins (snd (load_each env (pluginDirs entries) ?pm)))
           = map fst (plugins ?pm)
             @ filter (\<lambda>n. plugin_loads (plugin_at env n) (posix_join [pluginsDir ?pm, n]))
                 (pluginDirs entries)"
    using load_each_keys [OF assms(3), of ?pm env] by blast
  obtain r pm1 where l: "load_each env (pluginDirs entries) ?pm = (r, pm1)"
    by (cases "load_each env (pluginDirs entries) ?pm")
  have r: "r = Inr ()" using k l by simp
  have "loadPlugins env (new_PluginManager dir)
          = (Inr (), log_line (LoadedCount (length (plugins pm1))) pm1)"
    using assms(1,2) l r
    by (simp add: loadPlugins_def loadPlugins_try_def new_PluginManager_def log_line_def)
  then show ?thesis
    using k l by (simp add: log_line_def new_PluginManager_def)
qed

lemma loadPlugins_one_well_formed_one_malformed:
  fixes env :: "('p, 'h) plugins_fs"
  assumes "dir_exists env" and "readdir_entries env = Inr entries"
    and "pluginDirs entries = [a, b]" and "a \<noteq> b"
    and "\<not> throws_nullish (plugin_at env a) (posix_join [dir, a])"
    and "\<not> throws_nullish (plugin_at env b) (posix_join [dir, b])"
    and "plugin_loads (plugin_at env a) (posix_join [dir, a])
           \<noteq> plugin_loads (plugin_at env b) (posix_join [dir, b])"
  shows "fst (loadPlugins env (new_PluginManager dir)) = Inr ()
       \<and> length (getPluginInfo (snd (loadPlugins env (new_PluginManager dir)))) = 1"
proof -
  have "distinct (pluginDirs entries)" using assms(3,4) by simp
  moreover have "\<forall>n\<in>set (pluginDirs entries). \<not> throws_nullish (plugin_at env n) (posix_join [dir, n])"
    using assms(3,5,6) by simp
  ultimately have k: "fst (loadPlugins env (new_PluginManager dir)) = Inr ()
       \<and> map fst (plugins (snd (loadPlugins env (new_PluginManager dir))))
           = filter (\<lambda>n. plugin_loads (plugin_at env n) (posix_join [dir, n])) (pluginDirs entries)"
    using loadPlugins_isolates_failures [OF assms(1,2)] by blast
  have "length (getPluginInfo (snd (loadPlugins env (new_PluginManager dir))))
          = length (map fst (plugins (snd (loadPlugins env (new_PluginManager dir)))))"
    by (simp add: getPluginInfo_plugins)
  also have "\<dots> = 1"
    using k assms(3,7) by auto
  finally show ?thesis using k by simp
qed

lemma loadPlugins_missing_init_example:
  "fst (loadPlugins missing_init_fs (new_PluginManager ''/app/plugins'')) = Inr ()
   \<and> getPluginInfo (snd (loadPlugins missing_init_fs (new_PluginManager ''/app/plugins'')))
       = [\<lparr>p_name = ''beta'', p_version = ''1.0.0'', p_description = []\<rparr>]
   \<and> console (snd (loadPlugins missing_init_fs (new_PluginManager ''/app/plugins'')))
       = [LoadingPluginsFrom ''/app/plugins'', MissingInit ''alpha'', PluginOk ''beta'' ''1.0.0'',
          LoadedCount 1]"
  by (simp add: loadPlugins_def loadPlugins_try_def loadPlugin_def loadPlugin_try_def
        missing_init_fs_def new_PluginManager_def pluginDirs_def startsWith_char_def
        load_config_def validatePlugin_def initialize_plugin_def log_line_def Let_def
        registerHook_def js_or_def getPluginInfo_def)

text \<open>
  C5. The claim covers a malformed plugin whose \<open>init\<close> throws. In \<open>nullish_init_fs\<close> the
  plugin \<open>alpha\<close> throws \<open>null\<close> from \<open>init\<close> and is listed before the well-formed \<open>beta\<close>.
  The \<open>catch\<close> block of \<open>loadPlugin\<close> reads \<open>error.message\<close> of the caught \<open>null\<close>, which
  throws a \<open>TypeError\<close> out of \<open>loadPlugin\<close> and out of the loop of \<open>loadPlugins\<close>, whose
  own \<open>catch\<close> logs it: \<open>loadPlugins\<close> returns normally, but \<open>beta\<close> is never loaded and
  \<open>getPluginInfo\<close> is empty.
\<close>

theorem loadPlugins_nullish_init_aborts:
  "fst (loadPlugins nullish_init_fs (new_PluginManager ''/app/plugins'')) = Inr ()
   \<and> getPluginInfo (snd (loadPlugins nullish_init_fs (new_PluginManager ''/app/plugins''))) = []
   \<and> console (snd (loadPlugins nullish_init_fs (new_PluginManager ''/app/plugins'')))
       = [LoadingPluginsFrom ''/app/plugins'',
          ErrorLoadingPlugins ''Cannot read properties of null or undefined'']
   \<and> plugin_loads (plugin_at nullish_init_fs ''beta'') ''/app/plugins/beta''"
  by (simp add: loadPlugins_def loadPlugins_try_def loadPlugin_def loadPlugin_try_def
        nullish_init_fs_def new_PluginManager_def pluginDirs_def startsWith_char_def
        load_config_def validatePlugin_def initialize_plugin_def log_line_def Let_def
        TypeError_message_of_nullish_def getPluginInfo_def plugin_loads_def)

lemma set_pluginDirs:
  "set (pluginDirs entries)
     = {name. (name, True) \<in> set entries \<and> \<not> startsWith_char name CHR ''_''
              \<and> \<not> startsWith_char name CHR ''.''}"
  by (force simp: pluginDirs_def)

lemma sorted_pluginDirs: "sorted (map fst entries) \<Longrightarrow> sorted (pluginDirs entries)"
  unfolding pluginDirs_def by (simp add: sorted_filter)

lemma readdir_sorted_listing:
  "sorted (map fst (readdir_sorted dirents))" "set (readdir_sorted dirents) = set dirents"
  by (simp_all add: readdir_sorted_def)

text \<open>
  C7. Plugin discovery, the filter of \<open>loadPlugins\<close> over what \<open>fs.readdir\<close> returns for
  the plugins directory, yields exactly the names of the entries that are directories
  and do not begin with \<open>_\<close> or \<open>.\<close>, and yields them in lexicographic order by name,
  whatever the order \<open>dirents\<close> in which the kernel enumerates the directory; the filter
  keeps the order of any sorted listing.
\<close>

theorem pluginDirs_lexicographic:
  "set (pluginDirs (readdir_sorted dirents))
     = {name. (name, True) \<in> set dirents \<and> \<not> startsWith_char name CHR ''_''
              \<and> \<not> startsWith_char name CHR ''.''}
   \<and> sorted (pluginDirs (readdir_sorted dirents))
   \<and> (sorted (map fst entries) \<longrightarrow> sorted (pluginDirs entries))"
  by (simp add: set_pluginDirs sorted_pluginDirs readdir_sorted_listing)

theorem pluginDirs_lexicographic_witness:
  "sorted (map fst [(''.git'', True), (''README.md'', False), (''_template'', True),
                    (''alpha'', True), (''zeta'', True)])
   \<and> pluginDirs [(''.git'', True), (''README.md'', False), (''_template'', True),
                 (''alpha'', True), (''zeta'', True)] = [''alpha'', ''zeta'']
   \<and> readdir_sorted [(''zeta'', True), (''_template'', True), (''README.md'', False),
                     (''alpha'', True), (''.git'', True)]
       = [(''.git'', True), (''README.md'', False), (''_template'', True),
          (''alpha'', True), (''zeta'', True)]
   \<and> sorted (pluginDirs (readdir_sorted [(''zeta'', True), (''_template'', True),
                 (''README.md'', False), (''alpha'', True), (''.git'', True)]))"
proof -
  have s: "sorted (map fst [(''.git'', True), (''README.md'', False), (''_template'', True),
                    (''alpha'', True), (''zeta'', True)])"
    by simp
  have p: "pluginDirs [(''.git'', True), (''README.md'', False), (''_template'', True),
                 (''alpha'', True), (''zeta'', True)] = [''alpha'', ''zeta'']"
    by (simp add: pluginDirs_def startsWith_char_def)
  have r: "readdir_sorted [(''zeta'', True), (''_template'', True), (''README.md'', False),
                     (''alpha'', True), (''.git'', True)]
       = [(''.git'', True), (''README.md'', False), (''_template'', True),
          (''alpha'', True), (''zeta'', True)]"
    by (simp add: readdir_sorted_def)
  show ?thesis
    using pluginDirs_lexicographic
      [of "[(''zeta'', True), (''_template'', True), (''README.md'', False),
            (''alpha'', True), (''.git'', True)]"
          "[(''.git'', True), (''README.md'', False), (''_template'', True),
            (''alpha'', True), (''zeta'', True)]"] s p r
    by simp
qed

section \<open>Properties of folder metadata\<close>

lemma posix_join_child [simp]:
  "posix_join [''/data/photos'', ''a.jpg''] = ''/data/photos/a.jpg''"
  "posix_join [''/data/photos'', ''b.jpg''] = ''/data/photos/b.jpg''"
  "posix_join [''/data/photos'', ''c.jpg''] = ''/data/photos/c.jpg''"
  "posix_join [''/data/photos'', ''empty''] = ''/data/photos/empty''"
  "posix_join [''/data/photos'', ''locked''] = ''/data/photos/locked''"
  "posix_join [''/data'', ''photos''] = ''/data/photos''"
  "posix_join [''/data'', ''notes.txt''] = ''/data/notes.txt''"
  by (simp_all add: posix_join_def posix_normalize_def normalizeString_def normalize_step_def)

lemma js_add_exact: "a + b < 2 ^ 53 \<Longrightarrow> js_add a b = a + b"
  by (simp add: js_add_def double_of_nat_def)

lemma sub_loop_sum:
  "\<forall>sub\<in>set subs. stat fs (posix_join [p, sub]) = Inr (g sub) \<Longrightarrow>
   acc + sum_list (map (\<lambda>sub. st_size (g sub)) subs) < 2 ^ 53 \<Longrightarrow>
   sub_loop fs p subs acc = Inr (acc + sum_list (map (\<lambda>sub. st_size (g sub)) subs))"
proof (induction subs arbitrary: acc)
  case Nil
  then show ?case by simp
next
  case (Cons sub subs)
  have "acc + st_size (g sub) < 2 ^ 53"
    using Cons.prems(2) by simp
  then have a: "js_add acc (st_size (g sub)) = acc + st_size (g sub)"
    by (rule js_add_exact)
  have "sub_loop fs p subs (acc + st_size (g sub))
          = Inr (acc + st_size (g sub) + sum_list (map (\<lambda>sub. st_size (g sub)) subs))"
    using Cons.prems by (intro Cons.IH) (simp_all add: add.assoc)
  then show ?case
    using Cons.prems(1) a by (simp add: add.assoc)
qed

lemma item_loop_sum:
  assumes "\<forall>item\<in>set items. stat fs (posix_join [folderPath, item]) = Inr (st item)"
    and "\<forall>item\<in>set items. isDirectory (st item) \<longrightarrow>
           readdir fs (posix_join [folderPath, item]) = Inr (subs item)
           \<and> (\<forall>sub\<in>set (subs item).
                 stat fs (posix_join [posix_join [folderPath, item], sub]) = Inr (sst item sub))"
    and "t + sum_list (map (\<lambda>item. if isDirectory (st item)
                                     then sum_list (map (\<lambda>sub. st_size (sst item sub)) (subs item))
                                     else st_size (st item)) items) < 2 ^ 53"
  shows "item_loop fs folderPath items (c, t) =
           Inr (c + length items,
                t + sum_list (map (\<lambda>item. if isDirectory (st item)
                                           then sum_list (map (\<lambda>sub. st_size (sst item sub)) (subs item))
                                           else st_size (st item)) items))"
  using assms
proof (induction items arbitrary: c t)
  case Nil
  then show ?case by simp
next
  case (Cons item items)
  define child where "child = (\<lambda>item. if isDirectory (st item)
                                     then sum_list (map (\<lambda>sub. st_size (sst item sub)) (subs item))
                                     else st_size (st item))"
  have bound: "t + child item + sum_list (map child items) < 2 ^ 53"
    using Cons.prems(3) by (simp add: child_def add.assoc)
  have s: "stat fs (posix_join [folderPath, item]) = Inr (st item)"
    using Cons.prems(1) by simp
  have ih: "item_loop fs folderPath items (c', t + child item) =
           Inr (c' + length items, t + child item + sum_list (map child items))" for c'
    unfolding child_def
    using Cons.prems(1,2) bound [unfolded child_def]
    by (intro Cons.IH) simp_all
  have step: "item_loop fs folderPath (item # items) (c, t)
                = item_loop fs folderPath items (c + 1, t + child item)"
  proof (cases "isDirectory (st item)")
    case True
    then have r: "readdir fs (posix_join [folderPath, item]) = Inr (subs item)"
      and ss: "\<forall>sub\<in>set (subs item).
                 stat fs (posix_join [posix_join [folderPath, item], sub]) = Inr (sst item sub)"
      using Cons.prems(2) by simp_all
    have c: "child item = sum_list (map (\<lambda>sub. st_size (sst item sub)) (subs item))"
      using True by (simp add: child_def)
    have "t + sum_list (map (\<lambda>sub. st_size (sst item sub)) (subs item)) < 2 ^ 53"
      using bound c by simp
    then have "sub_loop fs (posix_join [folderPath, item]) (subs item) t
            = Inr (t + sum_list (map (\<lambda>sub. st_size (sst item sub)) (subs item)))"
      using ss by (intro sub_loop_sum) simp_all
    then show ?thesis
      using True s r c by (simp add: Let_def)
  next
    case False
    then have c: "child item = st_size (st item)"
      by (simp add: child_def)
    have "t + st_size (st item) < 2 ^ 53"
      using bound c by simp
    then have "js_add t (st_size (st item)) = t + st_size (st item)"
      by (rule js_add_exact)
    then show ?thesis
      using False s c by (simp add: Let_def)
  qed
  show ?case
    unfolding step ih
    by (simp add: child_def add.assoc)
qed

text \<open>
  C9. When every read succeeds and the sizes add up to less than \<open>2^53\<close>, so that every
  addition is exact, \<open>getFolderMetadata\<close> returns as \<open>itemCount\<close> the number of direct
  children of the directory, files and subdirectories alike, and as \<open>totalSize\<close> the
  sum over the direct children of the size of a file and, for a subdirectory, of the
  sizes of its own direct children. Here \<open>st\<close>, \<open>subs\<close> and \<open>sst\<close> name what \<open>fs.stat\<close>
  and \<open>fs.readdir\<close> yield for the children and grandchildren. On three files of sizes
  10, 20 and 30 and one empty subdirectory the result is 4 and 60.
\<close>

theorem getFolderMetadata_summary:
  assumes "readdir fs folderPath = Inr items"
    and "\<forall>item\<in>set items. stat fs (posix_join [folderPath, item]) = Inr (st item)"
    and "\<forall>item\<in>set items. isDirectory (st item) \<longrightarrow>
           readdir fs (posix_join [folderPath, item]) = Inr (subs item)
           \<and> (\<forall>sub\<in>set (subs item).
                 stat fs (posix_join [posix_join [folderPath, item], sub]) = Inr (sst item sub))"
    and "sum_list (map (\<lambda>item. if isDirectory (st item)
                                 then sum_list (map (\<lambda>sub. st_size (sst item sub)) (subs item))
                                 else st_size (st item)) items) < 2 ^ 53"
  shows "getFolderMetadata fs folderPath =
           Inr \<lparr>itemCount = length items,
                totalSize = sum_list (map (\<lambda>item. if isDirectory (st item)
                                           then sum_list (map (\<lambda>sub. st_size (sst item sub)) (subs item))
                                           else st_size (st item)) items)\<rparr>"
proof -
  have "item_loop fs folderPath items (0, 0) =
           Inr (0 + length items,
                0 + sum_list (map (\<lambda>item. if isDirectory (st item)
                                           then sum_list (map (\<lambda>sub. st_size (sst item sub)) (subs item))
                                           else st_size (st item)) items))"
    using assms(2,3,4) by (intro item_loop_sum) simp_all
  then show ?thesis
    using assms(1) by (simp add: getFolderMetadata_def)
qed

theorem getFolderMetadata_summary_witness:
  "getFolderMetadata photos_fs ''/data/photos'' = Inr \<lparr>itemCount = 4, totalSize = 60\<rparr>"
proof -
  have r: "readdir photos_fs ''/data/photos'' = Inr [''a.jpg'', ''b.jpg'', ''c.jpg'', ''empty'']"
    by (simp add: photos_fs_def)
  have s: "\<forall>item\<in>set [''a.jpg'', ''b.jpg'', ''c.jpg'', ''empty''].
             stat photos_fs (posix_join [''/data/photos'', item]) = Inr (photos_stats item)"
    by (simp add: photos_fs_def photos_stats_def)
  have d: "\<forall>item\<in>set [''a.jpg'', ''b.jpg'', ''c.jpg'', ''empty''].
             isDirectory (photos_stats item) \<longrightarrow>
             readdir photos_fs (posix_join [''/data/photos'', item]) = Inr ((\<lambda>i. []) item)
             \<and> (\<forall>sub\<in>set ((\<lambda>i. []) item).
                   stat photos_fs (posix_join [posix_join [''/data/photos'', item], sub])
                     = Inr ((\<lambda>i j. photos_stats j) item sub))"
    by (simp add: photos_fs_def photos_stats_def)
  have b: "sum_list (map (\<lambda>item. if isDirectory (photos_stats item)
                                 then sum_list (map (\<lambda>sub. st_size ((\<lambda>i j. photos_stats j) item sub))
                                                  ((\<lambda>i. []) item))
                                 else st_size (photos_stats item))
                         [''a.jpg'', ''b.jpg'', ''c.jpg'', ''empty'']) < 2 ^ 53"
    by (simp add: photos_stats_def)
  show ?thesis
    using getFolderMetadata_summary [OF r s d b]
    by (simp add: photos_stats_def)
qed


text \<open>
  Beyond \<open>2^53\<close> the additions round: a file of \<open>2^53\<close> bytes and two files of one byte
  sum to \<open>2^53\<close>, each single byte being lost to rounding.
\<close>

lemma bit_length_2_53: "bit_length 9007199254740992 = 54" "bit_length 9007199254740993 = 54"
  by (simp_all add: bit_length.simps)

lemma getFolderMetadata_rounds:
  "getFolderMetadata huge_fs ''/data/photos''
     = Inr \<lparr>itemCount = 3, totalSize = 9007199254740992\<rparr>"
  using bit_length_2_53
  by (simp add: getFolderMetadata_def huge_fs_def Let_def js_add_def double_of_nat_def
      del: bit_length.simps)

lemma item_loop_append:
  "item_loop fs p (xs @ ys) acc =
     (case item_loop fs p xs acc of Inl e \<Rightarrow> Inl e | Inr acc' \<Rightarrow> item_loop fs p ys acc')"
  by (induction xs arbitrary: acc) (simp_all add: Let_def split: sum.splits)

lemma getFolderMetadata_propagates:
  assumes "readdir fs folderPath = Inr (pre @ item # post)"
    and "item_loop fs folderPath pre (0, 0) = Inr acc"
    and "stat fs (posix_join [folderPath, item]) = Inr s" and "isDirectory s"
    and "readdir fs (posix_join [folderPath, item]) = Inl e"
  shows "getFolderMetadata fs folderPath = Inl e"
  using assms by (simp add: getFolderMetadata_def item_loop_append Let_def)

lemma item_details_catches:
  assumes "stat fs (posix_join [fullPath, itemName]) = Inr s" and "isDirectory s"
    and "getFolderMetadata fs (posix_join [fullPath, itemName]) = Inl e"
  shows "item_details fs fullPath itemName =
           Inr \<lparr>e_name = itemName, e_size = st_size s, e_isDirectory = True, e_itemCount = Some 0\<rparr>"
  using assms by (simp add: item_details_def Let_def)

lemma item_details_fulfils:
  "stat fs (posix_join [fullPath, itemName]) = Inr s \<Longrightarrow>
   \<exists>info. item_details fs fullPath itemName = Inr info \<and> e_name info = itemName"
  by (cases "getFolderMetadata fs (posix_join [fullPath, itemName])")
     (simp_all add: item_details_def Let_def)

lemma all_item_details_fulfils:
  "\<forall>i\<in>set items. \<exists>s. stat fs (posix_join [fullPath, i]) = Inr s \<Longrightarrow>
   \<exists>infos. all_item_details fs fullPath items = Inr infos \<and> map e_name infos = items"
proof (induction items)
  case Nil
  then show ?case by simp
next
  case (Cons i items)
  then obtain s where "stat fs (posix_join [fullPath, i]) = Inr s" by auto
  then obtain info where a: "item_details fs fullPath i = Inr info" "e_name info = i"
    using item_details_fulfils by blast
  obtain infos where b: "all_item_details fs fullPath items = Inr infos" "map e_name infos = items"
    using Cons by auto
  show ?case using a b by simp
qed

text \<open>
  C4, as amended. An error while reading a child subdirectory makes \<open>getFolderMetadata\<close>
  fail as a whole with that error. It is the listing of \<open>GET /api/files\<close> that absorbs
  the failure, per listed directory: the entry of a directory whose
  \<open>getFolderMetadata\<close> fails is still returned, with \<open>itemCount\<close> 0 and its own
  \<open>stats.size\<close> as size, and the listing has an entry for every item whenever the
  \<open>fs.stat\<close> of each item succeeds.
\<close>

theorem listing_absorbs_metadata_failure:
  "(readdir fs folderPath = Inr (pre @ item # post)
      \<and> item_loop fs folderPath pre (0, 0) = Inr acc
      \<and> stat fs (posix_join [folderPath, item]) = Inr s \<and> isDirectory s
      \<and> readdir fs (posix_join [folderPath, item]) = Inl e
    \<longrightarrow> getFolderMetadata fs folderPath = Inl e)
   \<and> (stat fs (posix_join [fullPath, itemName]) = Inr s' \<and> isDirectory s'
      \<and> getFolderMetadata fs (posix_join [fullPath, itemName]) = Inl e'
    \<longrightarrow> item_details fs fullPath itemName =
          Inr \<lparr>e_name = itemName, e_size = st_size s', e_isDirectory = True, e_itemCount = Some 0\<rparr>)
   \<and> ((\<forall>i\<in>set items. \<exists>s. stat fs (posix_join [fullPath, i]) = Inr s)
    \<longrightarrow> (\<exists>infos. all_item_details fs fullPath items = Inr infos \<and> map e_name infos = items))"
  using getFolderMetadata_propagates [of fs folderPath pre item post acc s e]
    item_details_catches [of fs fullPath itemName s' e']
    all_item_details_fulfils [of items fs fullPath]
  by blast

text \<open>
  C4 as stated fails: in \<open>/data/photos\<close>, with a readable file \<open>a.jpg\<close> of 10 bytes and
  a subdirectory \<open>locked\<close> whose \<open>fs.readdir\<close> fails, \<open>getFolderMetadata\<close> does not return
  a summary with \<open>locked\<close> counted as zero, it fails with \<open>EACCES\<close>; and the listing of
  \<open>/data\<close> then reports \<open>photos\<close> with its own size 4096, not zero.
\<close>

theorem getFolderMetadata_aborts_counterexample:
  "getFolderMetadata locked_fs ''/data/photos'' = Inl EACCES
   \<and> stat locked_fs ''/data/photos/a.jpg'' = Inr \<lparr>isDirectory = False, st_size = 10\<rparr>
   \<and> item_details locked_fs ''/data'' ''photos'' =
       Inr \<lparr>e_name = ''photos'', e_size = 4096, e_isDirectory = True, e_itemCount = Some 0\<rparr>"
  by (simp add: getFolderMetadata_def item_details_def locked_fs_def Let_def js_add_exact)

theorem listing_absorbs_metadata_failure_witness:
  "getFolderMetadata locked_fs ''/data/photos'' = Inl EACCES
   \<and> item_details locked_fs ''/data'' ''photos'' =
       Inr \<lparr>e_name = ''photos'', e_size = 4096, e_isDirectory = True, e_itemCount = Some 0\<rparr>
   \<and> (\<exists>infos. all_item_details locked_fs ''/data'' [''photos'', ''notes.txt''] = Inr infos
         \<and> map e_name infos = [''photos'', ''notes.txt''])"
proof -
  have r: "readdir locked_fs ''/data/photos'' = Inr ([''a.jpg''] @ ''locked'' # [])"
    by (simp add: locked_fs_def)
  have l: "item_loop locked_fs ''/data/photos'' [''a.jpg''] (0, 0) = Inr (1, 10)"
    by (simp add: locked_fs_def Let_def js_add_exact)
  have s: "stat locked_fs (posix_join [''/data/photos'', ''locked''])
             = Inr \<lparr>isDirectory = True, st_size = 4096\<rparr>"
    by (simp add: locked_fs_def)
  have e: "readdir locked_fs (posix_join [''/data/photos'', ''locked'']) = Inl EACCES"
    by (simp add: locked_fs_def)
  have s': "stat locked_fs (posix_join [''/data'', ''photos''])
             = Inr \<lparr>isDirectory = True, st_size = 4096\<rparr>"
    by (simp add: locked_fs_def)
  have a: "\<forall>i\<in>set [''photos'', ''notes.txt'']. \<exists>s. stat locked_fs (posix_join [''/data'', i]) = Inr s"
    by (simp add: locked_fs_def)
  note t = listing_absorbs_metadata_failure
    [of locked_fs "''/data/photos''" "[''a.jpg'']" "''locked''" "[]" "(1, 10)"
        "\<lparr>isDirectory = True, st_size = 4096\<rparr>" EACCES
        "''/data''" "''photos''" "\<lparr>isDirectory = True, st_size = 4096\<rparr>" EACCES
        "[''photos'', ''notes.txt'']"]
  have g: "getFolderMetadata locked_fs ''/data/photos'' = Inl EACCES"
    using t r l s e by simp
  have "item_details locked_fs ''/data'' ''photos'' =
       Inr \<lparr>e_name = ''photos'', e_size = 4096, e_isDirectory = True, e_itemCount = Some 0\<rparr>"
    using t s' g by simp
  moreover have "\<exists>infos. all_item_details locked_fs ''/data'' [''photos'', ''notes.txt''] = Inr infos
         \<and> map e_name infos = [''photos'', ''notes.txt'']"
    using t a by blast
  ultimately show ?thesis using g by simp
qed

end
